theory Spec2Isabelle
  imports Complex_Main "HOL-Library.Sublist"
begin

section \<open>Flight-schedule acquisition pipeline (app/services/flight\_api\_client.py)\<close>

subsection \<open>Python values decoded from JSON\<close>

text \<open>
  The provider's payload is whatever \<^verbatim>\<open>response.json()\<close> decodes: \<^verbatim>\<open>None\<close>, \<^verbatim>\<open>bool\<close>,
  \<^verbatim>\<open>int\<close> (unbounded), \<^verbatim>\<open>float\<close>, \<^verbatim>\<open>str\<close>, \<^verbatim>\<open>list\<close> and \<^verbatim>\<open>dict\<close>. A dict is an
  association list read with \<open>map_of\<close>. A float is kept as the rational it denotes, or
  one of the three special values that Python's decoder also accepts.
\<close>

datatype pyfloat = Finite rat | NaN | PosInf | NegInf

datatype json =
    JNull
  | JBool bool
  | JInt int
  | JFloat pyfloat
  | JStr string
  | JList "json list"
  | JDict "(string \<times> json) list"

text \<open>The exceptions that the modelled code can see; all of them derive from \<^verbatim>\<open>Exception\<close>.\<close>

datatype error =
    AttributeError
  | TypeError
  | ValueError
  | ClientError
  | TimeoutError
  | DecodeError
  | SessionError
  | KeyError

type_synonym flight_record = "(string \<times> json) list"

definition and_then :: "error + 'a \<Rightarrow> ('a \<Rightarrow> error + 'b) \<Rightarrow> error + 'b" where
  "and_then r f = (case r of Inl e \<Rightarrow> Inl e | Inr v \<Rightarrow> f v)"

text \<open>Python truthiness (\<^verbatim>\<open>if x\<close>, \<^verbatim>\<open>x if c else y\<close>, the walrus test).\<close>

fun truthy :: "json \<Rightarrow> bool" where
  "truthy JNull = False"
| "truthy (JBool b) = b"
| "truthy (JInt n) = (n \<noteq> 0)"
| "truthy (JFloat f) = (f \<noteq> Finite 0)"
| "truthy (JStr s) = (s \<noteq> [])"
| "truthy (JList xs) = (xs \<noteq> [])"
| "truthy (JDict d) = (d \<noteq> [])"

text \<open>
  \<^verbatim>\<open>obj.get(key, default)\<close>: only a dict has the method; on any other value the attribute
  lookup raises \<^verbatim>\<open>AttributeError\<close>. A key that is present with value \<^verbatim>\<open>None\<close> yields
  \<^verbatim>\<open>None\<close>, not the default.
\<close>

fun py_get :: "json \<Rightarrow> string \<Rightarrow> json \<Rightarrow> error + json" where
  "py_get (JDict d) key dflt = Inr (case map_of d key of None \<Rightarrow> dflt | Some v \<Rightarrow> v)"
| "py_get _ key dflt = Inl AttributeError"

text \<open>\<^verbatim>\<open>x.get(key) if x else None\<close> and \<^verbatim>\<open>x.get(key, {}) if x else {}\<close>.\<close>

definition get_if :: "json \<Rightarrow> string \<Rightarrow> error + json" where
  "get_if x key = (if truthy x then py_get x key JNull else Inr JNull)"

definition get_obj_if :: "json \<Rightarrow> string \<Rightarrow> error + json" where
  "get_obj_if x key = (if truthy x then py_get x key (JDict []) else Inr (JDict []))"

subsection \<open>\<^verbatim>\<open>datetime.fromtimestamp(ts, tz=timezone.utc).strftime('%Y-%m-%d %H:%M:%S %Z')\<close>\<close>

text \<open>
  The standard library call on an integer number of seconds. The date is that of the
  day's ordinal (day 1 is 0001-01-01, so 1970-01-01 is 719163), computed in the manner of
  the library's \<^verbatim>\<open>_ord2ymd\<close>: the ordinal is cut into cycles of 400, 100, 4 and 1 years, and
  the last day of a 400-year or 4-year cycle is December 31 of the year before. The month
  and the day of the month are then found by walking the table of month lengths (where the
  library corrects an estimate of the month). \<^verbatim>\<open>datetime\<close> holds years 1 to 9999 only and
  raises outside of them (\<^verbatim>\<open>ValueError\<close>, \<^verbatim>\<open>OverflowError\<close> or \<^verbatim>\<open>OSError\<close>, depending on how
  far outside; one error here). \<^verbatim>\<open>%Y\<close> is the year as the C library prints it, without padding:
  \<^verbatim>\<open>999-12-31 23:59:59 UTC\<close> and \<^verbatim>\<open>1-01-01 00:00:00 UTC\<close>; the other fields have two digits.
  \<^verbatim>\<open>%Z\<close> of \<^verbatim>\<open>timezone.utc\<close> is \<^verbatim>\<open>UTC\<close>.
\<close>

definition month_lengths :: "bool \<Rightarrow> int list" where
  "month_lengths leap = [31, if leap then 29 else 28, 31, 30, 31, 30, 31, 31, 30, 31, 30, 31]"

fun month_day :: "int \<Rightarrow> int \<Rightarrow> int list \<Rightarrow> int \<times> int" where
  "month_day month n [] = (month, n + 1)"
| "month_day month n (len # lens) =
     (if n < len then (month, n + 1) else month_day (month + 1) (n - len) lens)"

definition ord2ymd :: "int \<Rightarrow> int \<times> int \<times> int" where
  "ord2ymd ordinal =
     (let n = ordinal - 1;
          n400 = n div 146097; r400 = n mod 146097;
          n100 = r400 div 36524; r100 = r400 mod 36524;
          n4 = r100 div 1461; r4 = r100 mod 1461;
          n1 = r4 div 365; r1 = r4 mod 365;
          year = n400 * 400 + 1 + n100 * 100 + n4 * 4 + n1
      in if n1 = 4 \<or> n100 = 4 then (year - 1, 12, 31)
         else (let leapyear = (n1 = 3 \<and> (n4 \<noteq> 24 \<or> n100 = 3));
                   (month, day) = month_day 1 r1 (month_lengths leapyear)
               in (year, month, day)))"

definition digit :: "int \<Rightarrow> char" where
  "digit n = char_of (48 + nat (n mod 10))"

definition dec2 :: "int \<Rightarrow> string" where
  "dec2 n = [digit (n div 10), digit n]"

fun dec :: "nat \<Rightarrow> string" where
  "dec n = (if n < 10 then [digit (int n)] else dec (n div 10) @ [digit (int n)])"

declare dec.simps [simp del]

definition utc_strftime :: "int \<Rightarrow> error + string" where
  "utc_strftime ts =
     (let (y, m, d) = ord2ymd (ts div 86400 + 719163);
          sod = ts mod 86400
      in if 1 \<le> y \<and> y \<le> 9999
         then Inr (dec (nat y) @ ''-'' @ dec2 m @ ''-'' @ dec2 d @ '' '' @
                   dec2 (sod div 3600) @ '':'' @ dec2 (sod mod 3600 div 60) @ '':'' @
                   dec2 (sod mod 60) @ '' UTC'')
         else Inl ValueError)"

subsection \<open>\<^verbatim>\<open>convert_timestamp\<close>\<close>

text \<open>
  \<^verbatim>\<open>return datetime.fromtimestamp(ts, ...).strftime(...) if ts else None\<close>. The argument is
  whatever the payload holds at \<^verbatim>\<open>time.scheduled.<direction>\<close>, so every JSON value is
  covered: a falsy one gives \<^verbatim>\<open>None\<close>; \<^verbatim>\<open>True\<close> is the integer 1; a string, list or dict
  is a \<^verbatim>\<open>TypeError\<close>. What the library makes of a float (its rounding to microseconds is
  done in binary floating point) is the parameter \<open>float_time\<close>.
\<close>

definition convert_timestamp :: "(pyfloat \<Rightarrow> error + string) \<Rightarrow> json \<Rightarrow> error + json" where
  "convert_timestamp float_time ts =
     (if truthy ts then
        (case ts of
           JInt n \<Rightarrow> map_sum id JStr (utc_strftime n)
         | JBool b \<Rightarrow> map_sum id JStr (utc_strftime 1)
         | JFloat f \<Rightarrow> map_sum id JStr (float_time f)
         | _ \<Rightarrow> Inl TypeError)
      else Inr JNull)"

subsection \<open>\<^verbatim>\<open>simplify_flight_data\<close>\<close>

text \<open>
  The body of the \<^verbatim>\<open>try\<close> block for one \<^verbatim>\<open>flight\<close>: the record it appends, or the
  exception it raises. The record is the dict in insertion order.
\<close>

definition simplify_record ::
  "(pyfloat \<Rightarrow> error + string) \<Rightarrow> json \<Rightarrow> string \<Rightarrow> error + flight_record" where
  "simplify_record float_time flight flight_type =
     and_then (py_get flight ''identification'' (JDict [])) (\<lambda>identification.
     and_then (py_get flight ''airline'' (JDict [])) (\<lambda>airline_info.
     and_then (py_get flight ''status'' (JDict [])) (\<lambda>status_info.
     and_then (py_get flight ''aircraft'' (JDict [])) (\<lambda>aircraft_info.
     and_then (py_get flight ''airport'' (JDict [])) (\<lambda>airport_info.
     and_then (py_get flight ''time'' (JDict [])) (\<lambda>time_info.
     and_then (and_then (py_get identification ''number'' (JDict []))
                 (\<lambda>number. py_get number ''default'' JNull)) (\<lambda>flightNumber.
     and_then (get_if airline_info ''name'') (\<lambda>airline.
     and_then (py_get status_info ''text'' JNull) (\<lambda>status.
     and_then (and_then (py_get aircraft_info ''model'' (JDict []))
                 (\<lambda>model. py_get model ''text'' JNull)) (\<lambda>aircraftModel.
     let record = [(''type'', JStr flight_type), (''flightNumber'', flightNumber),
                   (''airline'', airline), (''status'', status),
                   (''aircraftModel'', aircraftModel)]
     in if flight_type = ''arrival'' then
          and_then (py_get airport_info ''origin'' (JDict [])) (\<lambda>origin.
          and_then (py_get origin ''position'' (JDict [])) (\<lambda>origin_position.
          and_then (get_obj_if origin_position ''region'') (\<lambda>origin_region.
          and_then (get_obj_if origin_position ''country'') (\<lambda>origin_country.
          and_then (py_get origin ''name'' JNull) (\<lambda>originAirport.
          and_then (get_if origin_region ''city'') (\<lambda>originCity.
          and_then (get_if origin_country ''name'') (\<lambda>originCountry.
          and_then (and_then (and_then (py_get time_info ''scheduled'' (JDict []))
                      (\<lambda>scheduled. py_get scheduled ''arrival'' JNull))
                      (convert_timestamp float_time)) (\<lambda>scheduledTime.
          Inr (record @ [(''originAirport'', originAirport), (''originCity'', originCity),
                         (''originCountry'', originCountry),
                         (''scheduledTime'', scheduledTime)])))))))))
        else
          and_then (py_get airport_info ''destination'' (JDict [])) (\<lambda>destination.
          and_then (py_get destination ''position'' (JDict [])) (\<lambda>destination_position.
          and_then (get_obj_if destination_position ''region'') (\<lambda>destination_region.
          and_then (get_obj_if destination_position ''country'') (\<lambda>destination_country.
          and_then (py_get destination ''name'' JNull) (\<lambda>destinationAirport.
          and_then (get_if destination_region ''city'') (\<lambda>destinationCity.
          and_then (get_if destination_country ''name'') (\<lambda>destinationCountry.
          and_then (and_then (and_then (py_get time_info ''scheduled'' (JDict []))
                      (\<lambda>scheduled. py_get scheduled ''departure'' JNull))
                      (convert_timestamp float_time)) (\<lambda>scheduledTime.
          Inr (record @ [(''destinationAirport'', destinationAirport),
                         (''destinationCity'', destinationCity),
                         (''destinationCountry'', destinationCountry),
                         (''scheduledTime'', scheduledTime)])))))))))))))))))))"

text \<open>
  The \<^verbatim>\<open>for flight in flights\<close> loop, with \<^verbatim>\<open>simplified_flights\<close> as the accumulator:
  \<^verbatim>\<open>except Exception: ...; continue\<close> goes on to the next flight with the list unchanged.
\<close>

fun simplify_loop ::
  "(pyfloat \<Rightarrow> error + string) \<Rightarrow> json list \<Rightarrow> string \<Rightarrow> flight_record list \<Rightarrow> flight_record list"
where
  "simplify_loop float_time [] flight_type simplified_flights = simplified_flights"
| "simplify_loop float_time (flight # flights) flight_type simplified_flights =
     (case simplify_record float_time flight flight_type of
        Inl e \<Rightarrow> simplify_loop float_time flights flight_type simplified_flights
      | Inr record \<Rightarrow>
          simplify_loop float_time flights flight_type (simplified_flights @ [record]))"

definition simplify_flight_data ::
  "(pyfloat \<Rightarrow> error + string) \<Rightarrow> json list \<Rightarrow> string \<Rightarrow> flight_record list" where
  "simplify_flight_data float_time flights flight_type =
     simplify_loop float_time flights flight_type []"

subsection \<open>\<^verbatim>\<open>fetch_schedule\<close>\<close>

text \<open>
  What one upstream request can come to. \<open>SessionFailure\<close> is an exception of the
  \<^verbatim>\<open>async with aiohttp.ClientSession()\<close> statement itself, which is outside the
  \<^verbatim>\<open>try\<close>; \<open>ConnectionFailure\<close> is an \<^verbatim>\<open>aiohttp.ClientError\<close> raised by
  \<^verbatim>\<open>session.get\<close>; \<open>Timeout\<close> is the session's \<^verbatim>\<open>asyncio.TimeoutError\<close>;
  \<open>Response status body\<close> is a response with its status code and what
  \<^verbatim>\<open>response.json()\<close> yields for it, \<open>None\<close> when decoding raises.
  The provider answers a request by its query parameters \<^verbatim>\<open>iata\<close> and \<^verbatim>\<open>mode\<close>.
\<close>

datatype upstream =
    SessionFailure
  | ConnectionFailure
  | Timeout
  | Response nat "json option"

type_synonym provider = "string \<Rightarrow> string \<Rightarrow> upstream"

text \<open>\<^verbatim>\<open>sub in s\<close> on two strings: \<open>sub\<close> occurs in \<open>s\<close> as a contiguous run.\<close>

fun str_contains :: "string \<Rightarrow> string \<Rightarrow> bool" where
  "str_contains sub [] = (sub = [])"
| "str_contains sub (c # cs) = (take (length sub) (c # cs) = sub \<or> str_contains sub cs)"

text \<open>
  \<^verbatim>\<open>key in data\<close>: a key of a dict, an element of a list, a substring of a string;
  \<^verbatim>\<open>TypeError\<close> on a value that is not iterable.
\<close>

fun py_in :: "string \<Rightarrow> json \<Rightarrow> error + bool" where
  "py_in key (JDict d) = Inr (map_of d key \<noteq> None)"
| "py_in key (JList xs) = Inr (JStr key \<in> set xs)"
| "py_in key (JStr s) = Inr (str_contains key s)"
| "py_in key _ = Inl TypeError"

text \<open>\<^verbatim>\<open>data[key]\<close> with a string key: only a dict can be subscripted by a string.\<close>

fun py_subscript :: "json \<Rightarrow> string \<Rightarrow> error + json" where
  "py_subscript (JDict d) key = (case map_of d key of None \<Rightarrow> Inl KeyError | Some v \<Rightarrow> Inr v)"
| "py_subscript _ key = Inl TypeError"

text \<open>\<^verbatim>\<open>len(x)\<close> and \<^verbatim>\<open>for item in x\<close>: a dict iterates over its keys, a string over its characters.\<close>

fun py_len :: "json \<Rightarrow> error + nat" where
  "py_len (JList xs) = Inr (length xs)"
| "py_len (JStr s) = Inr (length s)"
| "py_len (JDict d) = Inr (length d)"
| "py_len _ = Inl TypeError"

fun py_iter :: "json \<Rightarrow> error + json list" where
  "py_iter (JList xs) = Inr xs"
| "py_iter (JStr s) = Inr (map (\<lambda>c. JStr [c]) s)"
| "py_iter (JDict d) = Inr (map (\<lambda>kv. JStr (fst kv)) d)"
| "py_iter _ = Inl TypeError"

text \<open>
  The loop \<^verbatim>\<open>for item in schedule_data\<close> with \<^verbatim>\<open>flights_list\<close> as the accumulator:
  an item whose \<^verbatim>\<open>flight\<close> is missing or falsy is skipped, an item that is not a dict
  raises.
\<close>

fun extract_flights :: "json list \<Rightarrow> json list \<Rightarrow> error + json list" where
  "extract_flights [] flights_list = Inr flights_list"
| "extract_flights (item # items) flights_list =
     and_then (py_get item ''flight'' JNull) (\<lambda>flight.
       if truthy flight then extract_flights items (flights_list @ [flight])
       else extract_flights items flights_list)"

text \<open>From the decoded body to \<^verbatim>\<open>flights_list\<close> (lines 62 to 74).\<close>

definition raw_flights :: "json \<Rightarrow> string \<Rightarrow> error + json list" where
  "raw_flights data api_mode =
     and_then (py_get data ''airport'' (JDict [])) (\<lambda>airport.
     and_then (py_get airport ''pluginData'' (JDict [])) (\<lambda>plugin_data.
     and_then (py_get plugin_data ''schedule'' (JDict [])) (\<lambda>schedule.
     and_then (py_get schedule api_mode (JDict [])) (\<lambda>mode_data.
     and_then (py_get mode_data ''data'' (JList [])) (\<lambda>schedule_data.
     and_then (py_len schedule_data) (\<lambda>n.
     and_then (py_iter schedule_data) (\<lambda>items.
     extract_flights items [])))))))"

text \<open>
  The \<^verbatim>\<open>try\<close> block: the value assigned to \<^verbatim>\<open>res\<close>, or the exception raised before the
  assignment. \<^verbatim>\<open>raise_for_status\<close> raises for a status of 400 and above. When the body
  has an \<^verbatim>\<open>error\<close> entry, the message prints \<^verbatim>\<open>data["error"]\<close> and the block returns
  the empty list.
\<close>

definition fetch_try ::
  "(pyfloat \<Rightarrow> error + string) \<Rightarrow> upstream \<Rightarrow> string \<Rightarrow> string \<Rightarrow> error + flight_record list"
where
  "fetch_try float_time up api_mode flight_type =
     (case up of
        SessionFailure \<Rightarrow> Inl SessionError
      | ConnectionFailure \<Rightarrow> Inl ClientError
      | Timeout \<Rightarrow> Inl TimeoutError
      | Response status body \<Rightarrow>
          if 400 \<le> status then Inl ClientError
          else (case body of
                  None \<Rightarrow> Inl DecodeError
                | Some data \<Rightarrow>
                    and_then (py_in ''error'' data) (\<lambda>has_error.
                      if has_error then and_then (py_subscript data ''error'') (\<lambda>msg. Inr [])
                      else and_then (raw_flights data api_mode) (\<lambda>flights_list.
                             Inr (simplify_flight_data float_time flights_list flight_type)))))"

text \<open>
  The whole function: \<^verbatim>\<open>res\<close> starts as the empty list, both \<^verbatim>\<open>except\<close> clauses only
  print, and \<^verbatim>\<open>finally: return res\<close> returns whatever \<^verbatim>\<open>res\<close> holds. Only a failure of
  the session statement leaves the function as an exception.
\<close>

definition fetch_schedule ::
  "(pyfloat \<Rightarrow> error + string) \<Rightarrow> provider \<Rightarrow> string \<Rightarrow> string \<Rightarrow> error + flight_record list"
where
  "fetch_schedule float_time provider airport_code flight_type =
     (let api_mode = (if flight_type = ''arrival'' then ''arrivals'' else ''departures'')
      in case provider airport_code api_mode of
           SessionFailure \<Rightarrow> Inl SessionError
         | up \<Rightarrow> Inr (case fetch_try float_time up api_mode flight_type of
                       Inl e \<Rightarrow> []
                     | Inr res \<Rightarrow> res))"

subsection \<open>\<^verbatim>\<open>get_flight_data\<close>\<close>

text \<open>
  \<^verbatim>\<open>asyncio.gather(*tasks, return_exceptions=True)\<close> yields, in the order of the tasks,
  each task's result or its exception. The loop extends \<^verbatim>\<open>all_flights\<close> by every result
  that is not an exception.
\<close>

fun collect_results ::
  "(error + flight_record list) list \<Rightarrow> flight_record list \<Rightarrow> flight_record list" where
  "collect_results [] all_flights = all_flights"
| "collect_results (Inl e # results) all_flights = collect_results results all_flights"
| "collect_results (Inr result # results) all_flights =
     collect_results results (all_flights @ result)"

definition get_flight_data ::
  "(pyfloat \<Rightarrow> error + string) \<Rightarrow> provider \<Rightarrow> string \<Rightarrow> flight_record list" where
  "get_flight_data float_time provider airport_code =
     collect_results
       [fetch_schedule float_time provider airport_code ''arrival'',
        fetch_schedule float_time provider airport_code ''departure''] []"

subsection \<open>The cache around \<^verbatim>\<open>get_flight_data\<close>\<close>

text \<open>
  The source applies \<^verbatim>\<open>@alru_cache(maxsize=12, ttl=600)\<close> to \<^verbatim>\<open>get_flight_data\<close>; the
  decorator's implementation (package \<^verbatim>\<open>async_lru\<close>) is not part of the source. The
  state below holds the entries in order of use, least recently used first, each with
  its key, its value and its creation time in seconds, and \<open>rounds\<close>, the number of
  runs of the wrapped function so far; each run makes one upstream request per
  direction.
\<close>

record cache_state =
  entries :: "(string \<times> flight_record list \<times> nat) list"
  rounds :: nat

definition ttl :: nat where
  "ttl = 600"

definition maxsize :: nat where
  "maxsize = 12"

definition empty_cache :: cache_state where
  "empty_cache = \<lparr>entries = [], rounds = 0\<rparr>"

text \<open>
  Modelled from the spec: the key of a cache entry, "airport code (string, normalized to
  uppercase IATA form)" (section 3). Neither the decorator nor any normalization of the
  code is part of the source.
\<close>

definition upper_char :: "char \<Rightarrow> char" where
  "upper_char c =
     (case map_of (zip ''abcdefghijklmnopqrstuvwxyz'' ''ABCDEFGHIJKLMNOPQRSTUVWXYZ'') c of
        None \<Rightarrow> c
      | Some u \<Rightarrow> u)"

definition uppercase :: "string \<Rightarrow> string" where
  "uppercase code = map upper_char code"

text \<open>
  Modelled from the spec: the expiry test of the absent decorator. "TTL = 600 seconds
  from entry creation" (section 4.3); "an entry older than the TTL is never returned as
  fresh" (section 3).
\<close>

definition fresh :: "nat \<Rightarrow> string \<times> flight_record list \<times> nat \<Rightarrow> bool" where
  "fresh now entry = (now < snd (snd entry) + ttl)"

text \<open>
  Modelled from the spec: the cached call, the wrapper that the absent decorator puts
  around \<open>get_flight_data\<close> (section 4.3). Calls are sequential, each at a time \<open>now\<close>;
  the provider may answer differently at different times. Expired entries are gone. On
  a hit the stored sequence is returned with no upstream call, and the entry becomes the
  most recently used. On a miss the wrapped function runs on the code as passed, its
  result is stored under the key of the code with creation time \<open>now\<close>, and beyond 12
  keys the least recently used entry is evicted.
\<close>

definition getFlights ::
  "(pyfloat \<Rightarrow> error + string) \<Rightarrow> (nat \<Rightarrow> provider) \<Rightarrow> nat \<Rightarrow> string \<Rightarrow> cache_state
     \<Rightarrow> flight_record list \<times> cache_state" where
  "getFlights float_time provider_at now airport_code st =
     (let key = uppercase airport_code;
          kept = filter (fresh now) (entries st)
      in case map_of kept key of
           Some (flights, created) \<Rightarrow>
             (flights,
              st\<lparr>entries := filter (\<lambda>e. fst e \<noteq> key) kept @ [(key, flights, created)]\<rparr>)
         | None \<Rightarrow>
             (let flights = get_flight_data float_time (provider_at now) airport_code;
                  added = kept @ [(key, flights, now)]
              in (flights,
                  \<lparr>entries = (if maxsize < length added then tl added else added),
                   rounds = rounds st + 1\<rparr>)))"

subsection \<open>\<^verbatim>\<open>ask_question\<close> (app/main.py) and \<^verbatim>\<open>get_answer_from_llm\<close>\<close>

text \<open>
  The handler's result and the request model. The language model is the parameter
  \<open>llm\<close>; the two fixed messages of \<^verbatim>\<open>get_answer_from_llm\<close> are the constructors
  \<open>NoData\<close> and \<open>LlmFailed\<close>. A request that fails the validation of the request
  model is answered with status 422 before the handler runs
  (\<open>RequestValidationError\<close>).
\<close>

datatype http_error = HTTPException nat | RequestValidationError

datatype answer = NoData | LlmFailed | Answer string

definition valid_airports :: "string list" where
  "valid_airports = [''DXB'', ''LHR'', ''CDG'', ''SIN'', ''HKG'', ''AMS'']"

definition get_answer_from_llm ::
  "(string \<Rightarrow> flight_record list \<Rightarrow> string \<Rightarrow> error + string) \<Rightarrow> string \<Rightarrow> flight_record list
     \<Rightarrow> string \<Rightarrow> answer" where
  "get_answer_from_llm llm question flight_data airport_code =
     (if flight_data = [] then NoData
      else (case llm question flight_data airport_code of
              Inl e \<Rightarrow> LlmFailed
            | Inr content \<Rightarrow> Answer content))"

record QueryRequest =
  airport :: string
  question :: string

text \<open>The constraint of app/models.py: \<^verbatim>\<open>question: str = Field(..., min_length=5)\<close>.\<close>

definition valid_request :: "QueryRequest \<Rightarrow> bool" where
  "valid_request request = (5 \<le> length (question request))"

definition ask_question ::
  "(pyfloat \<Rightarrow> error + string) \<Rightarrow> (nat \<Rightarrow> provider)
     \<Rightarrow> (string \<Rightarrow> flight_record list \<Rightarrow> string \<Rightarrow> error + string)
     \<Rightarrow> nat \<Rightarrow> QueryRequest \<Rightarrow> cache_state \<Rightarrow> (http_error + answer) \<times> cache_state" where
  "ask_question float_time provider_at llm now request st =
     (if airport request \<notin> set valid_airports then (Inl (HTTPException 400), st)
      else (let (flight_data, st') = getFlights float_time provider_at now (airport request) st
            in (Inr (get_answer_from_llm llm (question request) flight_data (airport request)),
                st')))"

text \<open>
  The route \<^verbatim>\<open>POST /api/ask\<close>: the framework validates the body against the request
  model, then calls the handler.
\<close>

definition api_ask ::
  "(pyfloat \<Rightarrow> error + string) \<Rightarrow> (nat \<Rightarrow> provider)
     \<Rightarrow> (string \<Rightarrow> flight_record list \<Rightarrow> string \<Rightarrow> error + string)
     \<Rightarrow> nat \<Rightarrow> QueryRequest \<Rightarrow> cache_state \<Rightarrow> (http_error + answer) \<times> cache_state" where
  "api_ask float_time provider_at llm now request st =
     (if valid_request request then ask_question float_time provider_at llm now request st
      else (Inl RequestValidationError, st))"

subsection \<open>Reference values for the properties\<close>

text \<open>
  The record in which every field but \<^verbatim>\<open>type\<close> is \<^verbatim>\<open>None\<close>, with the key set of the
  direction.
\<close>

definition null_record :: "string \<Rightarrow> flight_record" where
  "null_record flight_type =
     [(''type'', JStr flight_type), (''flightNumber'', JNull), (''airline'', JNull),
      (''status'', JNull), (''aircraftModel'', JNull)] @
     (if flight_type = ''arrival''
      then [(''originAirport'', JNull), (''originCity'', JNull), (''originCountry'', JNull),
            (''scheduledTime'', JNull)]
      else [(''destinationAirport'', JNull), (''destinationCity'', JNull),
            (''destinationCountry'', JNull), (''scheduledTime'', JNull)])"

text \<open>
  The specification's reading of the normalizer (section 4.2): every field is an
  optional-chained lookup along a path of keys, which is \<^verbatim>\<open>null\<close> as soon as a key is
  missing or the value on the way is not an object. \<open>chain\<close> is that lookup;
  \<open>chained_record\<close> is the record of the looked-up fields for a given
  \<^verbatim>\<open>scheduledTime\<close>, \<open>scheduled_path\<close> the path of the source timestamp, and
  \<open>optional_keys\<close> the optional sub-objects of a raw record (section 3).
\<close>

fun chain :: "json \<Rightarrow> string list \<Rightarrow> json" where
  "chain v [] = v"
| "chain (JDict d) (k # ks) = (case map_of d k of None \<Rightarrow> JNull | Some v \<Rightarrow> chain v ks)"
| "chain _ (k # ks) = JNull"

definition chained_record :: "json \<Rightarrow> string \<Rightarrow> json \<Rightarrow> flight_record" where
  "chained_record flight flight_type scheduledTime =
     [(''type'', JStr flight_type),
      (''flightNumber'', chain flight [''identification'', ''number'', ''default'']),
      (''airline'', chain flight [''airline'', ''name'']),
      (''status'', chain flight [''status'', ''text'']),
      (''aircraftModel'', chain flight [''aircraft'', ''model'', ''text''])] @
     (if flight_type = ''arrival''
      then [(''originAirport'', chain flight [''airport'', ''origin'', ''name'']),
            (''originCity'', chain flight [''airport'', ''origin'', ''position'', ''region'', ''city'']),
            (''originCountry'', chain flight [''airport'', ''origin'', ''position'', ''country'', ''name'']),
            (''scheduledTime'', scheduledTime)]
      else [(''destinationAirport'', chain flight [''airport'', ''destination'', ''name'']),
            (''destinationCity'',
               chain flight [''airport'', ''destination'', ''position'', ''region'', ''city'']),
            (''destinationCountry'',
               chain flight [''airport'', ''destination'', ''position'', ''country'', ''name'']),
            (''scheduledTime'', scheduledTime)])"

definition scheduled_path :: "string \<Rightarrow> string list" where
  "scheduled_path flight_type =
     [''time'', ''scheduled'', if flight_type = ''arrival'' then ''arrival'' else ''departure'']"

definition optional_keys :: "string list" where
  "optional_keys = [''identification'', ''airline'', ''status'', ''aircraft'', ''airport'', ''time'']"

text \<open>
  The shape of a raw record, by the values found along the paths that the normalizer
  walks. \<open>lookup\<close> is \<open>chain\<close> with "absent" kept apart from \<^verbatim>\<open>null\<close>. The sub-objects
  at \<open>plain_paths\<close> are read without a test; those at \<open>guarded_paths\<close> are
  read only if truthy. A record is \<open>well_shaped\<close> when every sub-object that is present
  is an object (or, on a guarded path, falsy), and \<open>wrong_typed\<close> when it is not an
  object itself or has a non-empty value that is not an object at one of the paths.
\<close>

fun is_dict :: "json \<Rightarrow> bool" where
  "is_dict (JDict d) = True"
| "is_dict _ = False"

fun lookup :: "json \<Rightarrow> string list \<Rightarrow> json option" where
  "lookup v [] = Some v"
| "lookup (JDict d) (k # ks) = (case map_of d k of None \<Rightarrow> None | Some v \<Rightarrow> lookup v ks)"
| "lookup _ (k # ks) = None"

definition place :: "string \<Rightarrow> string" where
  "place flight_type = (if flight_type = ''arrival'' then ''origin'' else ''destination'')"

definition plain_paths :: "string \<Rightarrow> string list list" where
  "plain_paths flight_type =
     [[''identification''], [''identification'', ''number''], [''status''],
      [''aircraft''], [''aircraft'', ''model''],
      [''airport''], [''airport'', place flight_type],
      [''time''], [''time'', ''scheduled'']]"

definition guarded_paths :: "string \<Rightarrow> string list list" where
  "guarded_paths flight_type =
     [[''airline''],
      [''airport'', place flight_type, ''position''],
      [''airport'', place flight_type, ''position'', ''region''],
      [''airport'', place flight_type, ''position'', ''country'']]"

definition well_shaped :: "json \<Rightarrow> string \<Rightarrow> bool" where
  "well_shaped flight flight_type =
     (is_dict flight \<and>
      (\<forall>p \<in> set (plain_paths flight_type).
         case lookup flight p of None \<Rightarrow> True | Some v \<Rightarrow> is_dict v) \<and>
      (\<forall>p \<in> set (guarded_paths flight_type).
         case lookup flight p of None \<Rightarrow> True | Some v \<Rightarrow> is_dict v \<or> \<not> truthy v))"

definition wrong_typed :: "json \<Rightarrow> string \<Rightarrow> bool" where
  "wrong_typed flight flight_type =
     (\<not> is_dict flight \<or>
      (\<exists>p \<in> set (plain_paths flight_type @ guarded_paths flight_type).
         case lookup flight p of None \<Rightarrow> False | Some v \<Rightarrow> truthy v \<and> \<not> is_dict v))"

text \<open>An arrival with a status and a scheduled time, and the record it normalizes to.\<close>

definition landed_arrival :: json where
  "landed_arrival =
     JDict [(''identification'', JDict [(''number'', JDict [(''default'', JStr ''EK1'')])]),
            (''airline'', JNull),
            (''status'', JDict [(''text'', JStr ''Landed'')]),
            (''airport'', JDict [(''origin'', JDict [(''name'', JStr ''Dubai''),
               (''position'', JDict [(''country'', JDict [(''name'', JStr ''UAE'')])])])]),
            (''time'', JDict [(''scheduled'', JDict [(''arrival'', JInt 1700000000)])])]"

definition landed_record :: flight_record where
  "landed_record =
     [(''type'', JStr ''arrival''), (''flightNumber'', JStr ''EK1''), (''airline'', JNull),
      (''status'', JStr ''Landed''), (''aircraftModel'', JNull),
      (''originAirport'', JStr ''Dubai''), (''originCity'', JNull),
      (''originCountry'', JStr ''UAE''), (''scheduledTime'', JStr ''2023-11-14 22:13:20 UTC'')]"

text \<open>One instance of the float parameter, for evaluating payloads at concrete inputs.\<close>

definition reject_float :: "pyfloat \<Rightarrow> error + string" where
  "reject_float f = Inl ValueError"

text \<open>
  The upstream outcomes that the claims call a failed fetch: a connection failure or
  timeout, a response that cannot be decoded, a status of 400 or above, and a body
  that is an object with an \<^verbatim>\<open>error\<close> entry.
\<close>

fun absorbed_failure :: "upstream \<Rightarrow> bool" where
  "absorbed_failure SessionFailure = False"
| "absorbed_failure ConnectionFailure = True"
| "absorbed_failure Timeout = True"
| "absorbed_failure (Response status None) = True"
| "absorbed_failure (Response status (Some data)) =
     (400 \<le> status \<or> (case data of JDict d \<Rightarrow> map_of d ''error'' \<noteq> None | _ \<Rightarrow> False))"

text \<open>
  The provider's envelope of section 3 of the specification around a list of items, an
  item around a flight, and a flight that has a flight number only.
\<close>

definition flight_item :: "json \<Rightarrow> json" where
  "flight_item flight = JDict [(''flight'', flight)]"

definition envelope :: "string \<Rightarrow> json list \<Rightarrow> json" where
  "envelope api_mode items =
     JDict [(''airport'', JDict [(''pluginData'', JDict [(''schedule'',
       JDict [(api_mode, JDict [(''data'', JList items)])])])])]"

definition numbered_flight :: "string \<Rightarrow> json" where
  "numbered_flight n =
     JDict [(''identification'', JDict [(''number'', JDict [(''default'', JStr n)])])]"

definition numbered_record :: "string \<Rightarrow> string \<Rightarrow> flight_record" where
  "numbered_record flight_type n = (null_record flight_type)[1 := (''flightNumber'', JStr n)]"

text \<open>A provider with two arrivals and one departure, and one whose arrivals fail.\<close>

definition sample_provider :: provider where
  "sample_provider iata api_mode =
     (if api_mode = ''arrivals''
      then Response 200 (Some (envelope ''arrivals''
             [flight_item (numbered_flight ''A1''), flight_item (numbered_flight ''A2'')]))
      else Response 200 (Some (envelope ''departures'' [flight_item (numbered_flight ''D1'')])))"

definition failing_arrivals :: "upstream \<Rightarrow> provider" where
  "failing_arrivals failure iata api_mode =
     (if api_mode = ''arrivals'' then failure else sample_provider iata api_mode)"

text \<open>A provider that answers the same at all times, and a language model that is down.\<close>

definition steady :: "provider \<Rightarrow> nat \<Rightarrow> provider" where
  "steady p now = p"

definition unavailable_llm :: "string \<Rightarrow> flight_record list \<Rightarrow> string \<Rightarrow> error + string" where
  "unavailable_llm q flight_data code = Inl ClientError"

subsection \<open>Reading a rendered time\<close>

text \<open>
  What a string of the form \<^verbatim>\<open>Y-MM-DD hh:mm:ss UTC\<close> says, independently of how the library
  produces it: the Gregorian leap-year rule, the number of days before a year and before a
  month, and the number of seconds from 1970-01-01 00:00:00 UTC to the date and time of day
  that the string names. A string of another form, or naming a date or time of day that
  does not exist, is not read.
\<close>

definition is_leap :: "int \<Rightarrow> bool" where
  "is_leap y = (y mod 4 = 0 \<and> (y mod 100 \<noteq> 0 \<or> y mod 400 = 0))"

definition days_before_year :: "int \<Rightarrow> int" where
  "days_before_year y = (y - 1) * 365 + (y - 1) div 4 - (y - 1) div 100 + (y - 1) div 400"

definition days_in_month :: "int \<Rightarrow> int \<Rightarrow> int" where
  "days_in_month y m = month_lengths (is_leap y) ! nat (m - 1)"

definition days_before_month :: "int \<Rightarrow> int \<Rightarrow> int" where
  "days_before_month y m = sum_list (take (nat (m - 1)) (month_lengths (is_leap y)))"

definition valid_date :: "int \<Rightarrow> int \<Rightarrow> int \<Rightarrow> bool" where
  "valid_date y m d = (1 \<le> m \<and> m \<le> 12 \<and> 1 \<le> d \<and> d \<le> days_in_month y m)"

definition ymd2ord :: "int \<Rightarrow> int \<Rightarrow> int \<Rightarrow> int" where
  "ymd2ord y m d = days_before_year y + days_before_month y m + d"

definition digit_val :: "char \<Rightarrow> int" where
  "digit_val c = int (of_char c) - 48"

definition is_digit :: "char \<Rightarrow> bool" where
  "is_digit c = (0 \<le> digit_val c \<and> digit_val c \<le> 9)"

definition number :: "string \<Rightarrow> int" where
  "number cs = foldl (\<lambda>acc c. 10 * acc + digit_val c) 0 cs"

definition parse_utc :: "string \<Rightarrow> int option" where
  "parse_utc s =
     (let year = takeWhile is_digit s; rest = dropWhile is_digit s
      in if year \<noteq> [] \<and> length rest = 19 \<and>
            map (\<lambda>i. rest ! i) [0, 3, 6, 9, 12] = ''-- ::'' \<and> drop 15 rest = '' UTC'' \<and>
            list_all (\<lambda>i. is_digit (rest ! i)) [1, 2, 4, 5, 7, 8, 10, 11, 13, 14]
         then (let y = number year;
                   m = number (take 2 (drop 1 rest));
                   d = number (take 2 (drop 4 rest));
                   hh = number (take 2 (drop 7 rest));
                   mi = number (take 2 (drop 10 rest));
                   ss = number (take 2 (drop 13 rest))
               in if 1 \<le> y \<and> valid_date y m d \<and> hh < 24 \<and> mi < 60 \<and> ss < 60
                  then Some ((ymd2ord y m d - 719163) * 86400 + hh * 3600 + mi * 60 + ss)
                  else None)
         else None)"

section \<open>Properties\<close>

subsection \<open>Basic facts\<close>

lemma and_then_Inl [simp]: "and_then (Inl e) f = Inl e"
  by (simp add: and_then_def)

lemma and_then_Inr [simp]: "and_then (Inr v) f = f v"
  by (simp add: and_then_def)

lemma simplify_loop_acc:
  "simplify_loop F fs ft acc = acc @ simplify_loop F fs ft []"
proof (induction fs arbitrary: acc)
  case Nil
  show ?case by simp
next
  case (Cons f fs)
  show ?case
  proof (cases "simplify_record F f ft")
    case (Inl e)
    then show ?thesis using Cons.IH [of acc] by simp
  next
    case (Inr r)
    then show ?thesis using Cons.IH [of "acc @ [r]"] Cons.IH [of "[r]"] by simp
  qed
qed

lemma simplify_flight_data_Nil [simp]: "simplify_flight_data F [] ft = []"
  by (simp add: simplify_flight_data_def)

lemma simplify_flight_data_Cons:
  "simplify_flight_data F (f # fs) ft =
     (case simplify_record F f ft of Inl e \<Rightarrow> [] | Inr r \<Rightarrow> [r]) @ simplify_flight_data F fs ft"
  using simplify_loop_acc [of F fs ft "[r]" for r]
  by (simp add: simplify_flight_data_def split: sum.split)

lemma simplify_flight_data_append:
  "simplify_flight_data F (xs @ ys) ft =
     simplify_flight_data F xs ft @ simplify_flight_data F ys ft"
  by (induction xs) (simp_all add: simplify_flight_data_Cons)

lemma simplify_record_no_keys:
  assumes "map_of d ''identification'' = None" "map_of d ''airline'' = None"
    "map_of d ''status'' = None" "map_of d ''aircraft'' = None"
    "map_of d ''airport'' = None" "map_of d ''time'' = None"
  shows "simplify_record F (JDict d) ft = Inr (null_record ft)"
  using assms
  by (simp add: simplify_record_def get_if_def get_obj_if_def convert_timestamp_def
      null_record_def)

lemma simplify_record_status_string:
  "simplify_record F (JDict [(''status'', JStr ''Landed'')]) ft = Inl AttributeError"
  by (simp add: simplify_record_def get_if_def get_obj_if_def)

lemma fetch_try_absorbed:
  "absorbed_failure up \<Longrightarrow>
   fetch_try F up api_mode ft = Inr [] \<or> (\<exists>e. fetch_try F up api_mode ft = Inl e)"
  by (cases up rule: absorbed_failure.cases)
     (auto simp: fetch_try_def split: json.splits option.splits)

lemma fetch_schedule_absorbed:
  "absorbed_failure (provider airport_code (if ft = ''arrival'' then ''arrivals'' else ''departures''))
   \<Longrightarrow> fetch_schedule F provider airport_code ft = Inr []"
  using fetch_try_absorbed
    [of "provider airport_code (if ft = ''arrival'' then ''arrivals'' else ''departures'')" F
      "if ft = ''arrival'' then ''arrivals'' else ''departures''" ft]
  by (cases "provider airport_code (if ft = ''arrival'' then ''arrivals'' else ''departures'')")
     (auto simp: fetch_schedule_def Let_def)

lemma fetch_schedule_ok:
  assumes "provider airport_code (if ft = ''arrival'' then ''arrivals'' else ''departures'') =
             Response status (Some data)"
    and "status < 400" and "py_in ''error'' data = Inr False"
    and "raw_flights data (if ft = ''arrival'' then ''arrivals'' else ''departures'') = Inr fl"
  shows "fetch_schedule F provider airport_code ft = Inr (simplify_flight_data F fl ft)"
  using assms by (simp add: fetch_schedule_def fetch_try_def Let_def)

lemma simplify_record_numbered:
  "simplify_record F (numbered_flight n) ft = Inr (numbered_record ft n)"
  by (simp add: simplify_record_def numbered_flight_def numbered_record_def null_record_def
      get_if_def get_obj_if_def convert_timestamp_def)

lemma raw_flights_envelope:
  "raw_flights (envelope m (map flight_item fs)) m = Inr (filter truthy fs)"
proof -
  have "extract_flights (map flight_item fs) acc = Inr (acc @ filter truthy fs)" for acc
    by (induction fs arbitrary: acc) (simp_all add: flight_item_def)
  then show ?thesis by (simp add: raw_flights_def envelope_def)
qed

lemma py_in_envelope: "py_in ''error'' (envelope m items) = Inr False"
  by (simp add: envelope_def)

lemma truthy_numbered [simp]: "truthy (numbered_flight n)"
  by (simp add: numbered_flight_def)

lemma get_flight_data_collect:
  "get_flight_data F provider code =
     (case fetch_schedule F provider code ''arrival'' of Inl e \<Rightarrow> [] | Inr r \<Rightarrow> r) @
     (case fetch_schedule F provider code ''departure'' of Inl e \<Rightarrow> [] | Inr r \<Rightarrow> r)"
  by (simp add: get_flight_data_def split: sum.split)

lemma fetch_schedule_session_failure:
  "provider code (if ft = ''arrival'' then ''arrivals'' else ''departures'') = SessionFailure \<Longrightarrow>
   fetch_schedule F provider code ft = Inl SessionError"
  by (simp add: fetch_schedule_def Let_def)

lemma month_day_correct:
  assumes "0 \<le> n" and "n < sum_list lens" and "month_day m n lens = (m', d)"
  shows "m \<le> m' \<and> m' < m + int (length lens) \<and> 1 \<le> d \<and> d \<le> lens ! nat (m' - m) \<and>
         sum_list (take (nat (m' - m)) lens) + d = n + 1"
  using assms
proof (induction lens arbitrary: m n)
  case Nil
  then show ?case by simp
next
  case (Cons len lens)
  show ?case
  proof (cases "n < len")
    case True
    with Cons.prems show ?thesis by auto
  next
    case False
    with Cons.prems have r: "month_day (m + 1) (n - len) lens = (m', d)"
      and b: "0 \<le> n - len" "n - len < sum_list lens" by auto
    from Cons.IH [OF b r] have ih: "m + 1 \<le> m'" "m' < m + 1 + int (length lens)" "1 \<le> d"
      "d \<le> lens ! nat (m' - (m + 1))"
      "sum_list (take (nat (m' - (m + 1))) lens) + d = n - len + 1" by auto
    have e: "nat (m' - m) = Suc (nat (m' - (m + 1)))" using ih(1) by linarith
    show ?thesis using ih by (simp add: e)
  qed
qed

lemma sum_month_lengths: "sum_list (month_lengths leap) = (if leap then 366 else 365)"
  by (simp add: month_lengths_def)

lemma ord2ymd_cases [case_names century leap_end normal]:
  fixes ordinal :: int
  obtains
    a where "ordinal - 1 = 146097 * a + 146096" and "ord2ymd ordinal = (400 * a + 400, 12, 31)"
  | a b c where "0 \<le> b" and "b \<le> 3" and "0 \<le> c" and "c \<le> 23"
      and "ordinal - 1 = 146097 * a + 36524 * b + 1461 * c + 1460"
      and "ord2ymd ordinal = (400 * a + 100 * b + 4 * c + 4, 12, 31)"
  | a b c e r where "0 \<le> b" and "b \<le> 3" and "0 \<le> c" and "c \<le> 24" and "0 \<le> e" and "e \<le> 3"
      and "0 \<le> r" and "r < 365"
      and "ordinal - 1 = 146097 * a + 36524 * b + 1461 * c + 365 * e + r"
      and "ord2ymd ordinal =
             (let (month, day) = month_day 1 r (month_lengths (e = 3 \<and> (c \<noteq> 24 \<or> b = 3)))
              in (400 * a + 100 * b + 4 * c + e + 1, month, day))"
proof -
  define n where "n = ordinal - 1"
  define a where "a = n div 146097"
  define r400 where "r400 = n mod 146097"
  define b where "b = r400 div 36524"
  define r100 where "r100 = r400 mod 36524"
  define c where "c = r100 div 1461"
  define r4 where "r4 = r100 mod 1461"
  define e where "e = r4 div 365"
  define r where "r = r4 mod 365"
  have res: "ord2ymd ordinal =
      (if e = 4 \<or> b = 4 then (a * 400 + 1 + b * 100 + c * 4 + e - 1, 12, 31)
       else (let (month, day) = month_day 1 r (month_lengths (e = 3 \<and> (c \<noteq> 24 \<or> b = 3)))
             in (a * 400 + 1 + b * 100 + c * 4 + e, month, day)))"
    unfolding ord2ymd_def Let_def n_def a_def r400_def b_def r100_def c_def r4_def e_def r_def
    by (rule refl)
  have n: "n = 146097 * a + r400" by (simp add: a_def r400_def)
  have r400: "0 \<le> r400" "r400 < 146097" by (simp_all add: r400_def)
  have r400': "r400 = 36524 * b + r100" by (simp add: b_def r100_def)
  have r100: "0 \<le> r100" "r100 < 36524" by (simp_all add: r100_def)
  have r100': "r100 = 1461 * c + r4" by (simp add: c_def r4_def)
  have r4: "0 \<le> r4" "r4 < 1461" by (simp_all add: r4_def)
  have r4': "r4 = 365 * e + r" by (simp add: e_def r_def)
  have r: "0 \<le> r" "r < 365" by (simp_all add: r_def)
  have b: "0 \<le> b" "b \<le> 4" using r400 r400' r100 by linarith+
  have c: "0 \<le> c" "c \<le> 24" using r100 r100' r4 by linarith+
  have e: "0 \<le> e" "e \<le> 4" using r4 r4' r by linarith+
  show thesis
  proof (cases "b = 4")
    case True
    then have "r100 = 0" using r400 r400' r100 by linarith
    then have "c = 0" "r4 = 0" using r100' r4 c by linarith+
    then have "e = 0" using r4' r e by linarith
    have "ordinal - 1 = 146097 * a + 146096"
      using n r400' True \<open>r100 = 0\<close> by (simp add: n_def)
    moreover have "ord2ymd ordinal = (400 * a + 400, 12, 31)"
      using res True \<open>c = 0\<close> \<open>e = 0\<close> by simp
    ultimately show ?thesis by (rule that(1))
  next
    case False
    then have b3: "b \<le> 3" using b by linarith
    show ?thesis
    proof (cases "e = 4")
      case True
      then have "r = 0" using r4 r4' r by linarith
      have c23: "c \<le> 23" using r100 r100' r4' True r c by linarith
      have "ordinal - 1 = 146097 * a + 36524 * b + 1461 * c + 1460"
        using n r400' r100' r4' True \<open>r = 0\<close> by (simp add: n_def)
      moreover have "ord2ymd ordinal = (400 * a + 100 * b + 4 * c + 4, 12, 31)"
        using res True by simp
      ultimately show ?thesis using b(1) b3 c(1) c23 that(2) by blast
    next
      case e4: False
      then have e3: "e \<le> 3" using e by linarith
      have "ordinal - 1 = 146097 * a + 36524 * b + 1461 * c + 365 * e + r"
        using n r400' r100' r4' by (simp add: n_def)
      moreover have "ord2ymd ordinal =
             (let (month, day) = month_day 1 r (month_lengths (e = 3 \<and> (c \<noteq> 24 \<or> b = 3)))
              in (400 * a + 100 * b + 4 * c + e + 1, month, day))"
        using res False e4 by (simp add: algebra_simps)
      ultimately show ?thesis using b(1) b3 c e(1) e3 r that(3) by blast
    qed
  qed
qed


lemma year_divs:
  fixes a b c e :: int
  assumes "0 \<le> b" "b \<le> 3" "0 \<le> c" "c \<le> 24" "0 \<le> e" "e \<le> 3"
  shows "(400 * a + 100 * b + 4 * c + e) div 4 = 100 * a + 25 * b + c"
    and "(400 * a + 100 * b + 4 * c + e) div 100 = 4 * a + b"
    and "(400 * a + 100 * b + 4 * c + e) div 400 = a"
proof -
  show "(400 * a + 100 * b + 4 * c + e) div 4 = 100 * a + 25 * b + c"
    by (rule int_div_pos_eq [where r = e]) (use assms in simp_all)
  show "(400 * a + 100 * b + 4 * c + e) div 100 = 4 * a + b"
    by (rule int_div_pos_eq [where r = "4 * c + e"]) (use assms in simp_all)
  show "(400 * a + 100 * b + 4 * c + e) div 400 = a"
    by (rule int_div_pos_eq [where r = "100 * b + 4 * c + e"]) (use assms in simp_all)
qed

lemma days_before_year_eq:
  fixes a b c e :: int
  assumes "0 \<le> b" "b \<le> 3" "0 \<le> c" "c \<le> 24" "0 \<le> e" "e \<le> 3"
  shows "days_before_year (400 * a + 100 * b + 4 * c + e + 1) =
           146097 * a + 36524 * b + 1461 * c + 365 * e"
  using year_divs [OF assms, of a] by (simp add: days_before_year_def)

lemma is_leap_eq:
  fixes a b c e :: int
  assumes "0 \<le> b" "b \<le> 3" "0 \<le> c" "c \<le> 24" "0 \<le> e" "e \<le> 3"
  shows "is_leap (400 * a + 100 * b + 4 * c + e + 1) = (e = 3 \<and> (c \<noteq> 24 \<or> b = 3))"
proof (cases "e = 3")
  case False
  have "(400 * a + 100 * b + 4 * c + e + 1) mod 4 = e + 1"
    by (rule int_mod_pos_eq [where q = "100 * a + 25 * b + c"]) (use assms False in simp_all)
  then show ?thesis using False assms by (simp add: is_leap_def)
next
  case True
  have m4: "(400 * a + 100 * b + 4 * c + e + 1) mod 4 = 0"
    by (rule int_mod_pos_eq [where q = "100 * a + 25 * b + c + 1"]) (use True in simp_all)
  show ?thesis
  proof (cases "c = 24")
    case False
    have "(400 * a + 100 * b + 4 * c + e + 1) mod 100 = 4 * c + 4"
      by (rule int_mod_pos_eq [where q = "4 * a + b"]) (use assms True False in simp_all)
    then show ?thesis using m4 True False assms by (simp add: is_leap_def)
  next
    case c: True
    have m100: "(400 * a + 100 * b + 4 * c + e + 1) mod 100 = 0"
      by (rule int_mod_pos_eq [where q = "4 * a + b + 1"]) (use True c in simp_all)
    show ?thesis
    proof (cases "b = 3")
      case True
      have "(400 * a + 100 * b + 4 * c + e + 1) mod 400 = 0"
        by (rule int_mod_pos_eq [where q = "a + 1"]) (use True c \<open>e = 3\<close> in simp_all)
      then show ?thesis using m4 True c \<open>e = 3\<close> by (simp add: is_leap_def)
    next
      case False
      have "(400 * a + 100 * b + 4 * c + e + 1) mod 400 = 100 * b + 100"
        by (rule int_mod_pos_eq [where q = a]) (use assms False c \<open>e = 3\<close> in simp_all)
      then show ?thesis using m4 m100 False c \<open>e = 3\<close> assms by (simp add: is_leap_def)
    qed
  qed
qed

lemma december_31:
  assumes "is_leap y"
  shows "valid_date y 12 31" and "ymd2ord y 12 31 = days_before_year y + 366"
  using assms by (simp_all add: valid_date_def ymd2ord_def days_in_month_def days_before_month_def
      month_lengths_def)

lemma ord2ymd_correct:
  assumes "ord2ymd ordinal = (y, m, d)"
  shows "valid_date y m d \<and> ymd2ord y m d = ordinal"
proof (cases ordinal rule: ord2ymd_cases)
  case (century a)
  have y: "y = 400 * a + 100 * 3 + 4 * 24 + 3 + 1" and md: "m = 12" "d = 31"
    using assms century(2) by simp_all
  have l: "is_leap y" unfolding y by (subst is_leap_eq) simp_all
  have "days_before_year y = 146097 * a + 36524 * 3 + 1461 * 24 + 365 * 3"
    unfolding y by (rule days_before_year_eq) simp_all
  then show ?thesis using december_31 [OF l] century(1) md by simp
next
  case (leap_end a b c)
  have y: "y = 400 * a + 100 * b + 4 * (c + 1) + 3 + 1 - 4" and md: "m = 12" "d = 31"
    using assms leap_end(6) by simp_all
  have y': "y = 400 * a + 100 * b + 4 * c + 3 + 1" by (simp add: y)
  have l: "is_leap y" unfolding y' by (subst is_leap_eq) (use leap_end in simp_all)
  have "days_before_year y = 146097 * a + 36524 * b + 1461 * c + 365 * 3"
    unfolding y' by (rule days_before_year_eq) (use leap_end in simp_all)
  then show ?thesis using december_31 [OF l] leap_end(5) md by simp
next
  case (normal a b c e r)
  define leap where "leap = (e = 3 \<and> (c \<noteq> 24 \<or> b = 3))"
  obtain m' d' where md: "month_day 1 r (month_lengths leap) = (m', d')"
    by (cases "month_day 1 r (month_lengths leap)")
  have y: "y = 400 * a + 100 * b + 4 * c + e + 1" and m: "m = m'" and d: "d = d'"
    using assms normal(10) md by (simp_all add: leap_def)
  have l: "is_leap y = leap"
    unfolding y leap_def by (rule is_leap_eq) (use normal in simp_all)
  have dby: "days_before_year y = 146097 * a + 36524 * b + 1461 * c + 365 * e"
    unfolding y by (rule days_before_year_eq) (use normal in simp_all)
  have "r < sum_list (month_lengths leap)" using normal(8) by (simp add: sum_month_lengths)
  from month_day_correct [OF normal(7) this md]
  have w: "1 \<le> m'" "m' < 1 + int (length (month_lengths leap))" "1 \<le> d'"
    "d' \<le> month_lengths leap ! nat (m' - 1)"
    "sum_list (take (nat (m' - 1)) (month_lengths leap)) + d' = r + 1" by simp_all
  have "m' \<le> 12" using w(2) by (simp add: month_lengths_def)
  then show ?thesis
    using w normal(9) dby
    by (simp add: valid_date_def ymd2ord_def days_in_month_def days_before_month_def l m d)
qed

lemma ord2ymd_year:
  assumes "1 \<le> ordinal" and "ordinal \<le> 3652059" and "ord2ymd ordinal = (y, m, d)"
  shows "1 \<le> y \<and> y \<le> 9999"
proof (cases ordinal rule: ord2ymd_cases)
  case (century a)
  then show ?thesis using assms by auto
next
  case (leap_end a b c)
  then show ?thesis using assms by auto
next
  case (normal a b c e r)
  obtain m' d' where md: "month_day 1 r (month_lengths (e = 3 \<and> (c \<noteq> 24 \<or> b = 3))) = (m', d')"
    by (cases "month_day 1 r (month_lengths (e = 3 \<and> (c \<noteq> 24 \<or> b = 3)))")
  have y: "y = 400 * a + 100 * b + 4 * c + e + 1" using assms(3) normal(10) md by simp
  have "0 \<le> a" using normal assms(1) by linarith
  moreover have "a \<le> 24" using normal assms(2) by linarith
  moreover have "a = 24 \<longrightarrow> b = 3 \<and> c = 24 \<and> e \<le> 2 \<or> 400 * a + 100 * b + 4 * c + e + 1 \<le> 9999"
    using normal assms(2) by linarith
  ultimately show ?thesis using y normal(1-6) by linarith
qed

lemma digit_val_digit: "digit_val (digit n) = n mod 10"
proof -
  have "0 \<le> n mod 10" "n mod 10 < 10" by simp_all
  then have "48 + nat (n mod 10) < 256" by linarith
  then have "(48 + nat (n mod 10)) mod 256 = 48 + nat (n mod 10)" by simp
  then show ?thesis by (simp add: digit_val_def digit_def of_char_of)
qed

lemma is_digit_digit: "is_digit (digit n)"
  by (simp add: is_digit_def digit_val_digit)

lemma not_digit_dash: "\<not> is_digit CHR ''-''"
  by (simp add: is_digit_def digit_val_def)

lemma number_snoc: "number (cs @ [c]) = 10 * number cs + digit_val c"
  by (simp add: number_def)

lemma dec_digits: "list_all is_digit (dec k) \<and> dec k \<noteq> [] \<and> number (dec k) = int k"
proof (induction k rule: dec.induct)
  case (1 n)
  show ?case
  proof (cases "n < 10")
    case True
    have "dec n = [digit (int n)]" using True by (subst dec.simps) simp
    then show ?thesis using True by (simp add: is_digit_digit number_def digit_val_digit)
  next
    case False
    have d: "dec n = dec (n div 10) @ [digit (int n)]" using False by (subst dec.simps) simp
    have "int n = int (10 * (n div 10) + n mod 10)" by simp
    also have "\<dots> = 10 * int (n div 10) + int n mod 10"
      by (simp only: of_nat_add of_nat_mult of_nat_numeral zmod_int)
    finally have "10 * int (n div 10) + int n mod 10 = int n" by simp
    then show ?thesis using 1 [OF False] by (simp add: d is_digit_digit number_snoc digit_val_digit)
  qed
qed

lemma number_dec2: "0 \<le> k \<Longrightarrow> k < 100 \<Longrightarrow> number (dec2 k) = k"
proof -
  assume k: "0 \<le> k" "k < 100"
  then have "0 \<le> k div 10" "k div 10 < 10" by simp_all
  then have "k div 10 mod 10 = k div 10" by simp
  then show ?thesis by (simp add: dec2_def number_def digit_val_digit)
qed

lemma time_of_day:
  fixes sod :: int
  assumes "0 \<le> sod" and "sod < 86400"
  shows "0 \<le> sod div 3600" and "sod div 3600 < 24"
    and "0 \<le> sod mod 3600 div 60" and "sod mod 3600 div 60 < 60"
    and "0 \<le> sod mod 60" and "sod mod 60 < 60"
    and "sod div 3600 * 3600 + sod mod 3600 div 60 * 60 + sod mod 60 = sod"
proof -
  show "0 \<le> sod div 3600" using assms by simp
  show "sod div 3600 < 24" using assms by simp
  show "0 \<le> sod mod 3600 div 60" by simp
  have "sod mod 3600 < 3600" by simp
  then show "sod mod 3600 div 60 < 60" by simp
  show "0 \<le> sod mod 60" "sod mod 60 < 60" by simp_all
  have "sod mod 3600 mod 60 = sod mod 60" by (simp add: mod_mod_cancel)
  then have "sod mod 3600 div 60 * 60 + sod mod 60 = sod mod 3600"
    using div_mult_mod_eq [of "sod mod 3600" 60] by simp
  then show "sod div 3600 * 3600 + sod mod 3600 div 60 * 60 + sod mod 60 = sod"
    using div_mult_mod_eq [of sod 3600] by linarith
qed

lemma month_lengths_le: "i < 12 \<Longrightarrow> month_lengths leap ! i \<le> 31"
proof -
  assume i: "i < 12"
  have "list_all (\<lambda>x. x \<le> 31) (month_lengths leap)" by (simp add: month_lengths_def)
  moreover have "length (month_lengths leap) = 12" by (simp add: month_lengths_def)
  ultimately show ?thesis using i by (simp add: list_all_length)
qed

lemma parse_rendered:
  assumes y: "1 \<le> y" and v: "valid_date y m d"
    and hh: "0 \<le> hh" "hh < 24" and mi: "0 \<le> mi" "mi < 60" and ss: "0 \<le> ss" "ss < 60"
  shows "parse_utc (dec (nat y) @ ''-'' @ dec2 m @ ''-'' @ dec2 d @ '' '' @
                    dec2 hh @ '':'' @ dec2 mi @ '':'' @ dec2 ss @ '' UTC'') =
         Some ((ymd2ord y m d - 719163) * 86400 + hh * 3600 + mi * 60 + ss)"
proof -
  define rest where "rest = ''-'' @ dec2 m @ ''-'' @ dec2 d @ '' '' @
                    dec2 hh @ '':'' @ dec2 mi @ '':'' @ dec2 ss @ '' UTC''"
  have dg: "\<And>c. c \<in> set (dec (nat y)) \<Longrightarrow> is_digit c"
    using dec_digits [of "nat y"] by (simp add: list_all_iff)
  have hd: "rest = CHR ''-'' # tl rest" by (simp add: rest_def)
  have "takeWhile is_digit (CHR ''-'' # tl rest) = []"
    and "dropWhile is_digit (CHR ''-'' # tl rest) = CHR ''-'' # tl rest"
    by (simp_all add: not_digit_dash)
  then have r: "takeWhile is_digit rest = []" "dropWhile is_digit rest = rest"
    using hd by simp_all
  have tw: "takeWhile is_digit (dec (nat y) @ rest) = dec (nat y)"
    by (subst takeWhile_append2 [OF dg], assumption) (simp add: r)
  have dw: "dropWhile is_digit (dec (nat y) @ rest) = rest"
    by (subst dropWhile_append2 [OF dg], assumption) (simp add: r)
  have m: "1 \<le> m" "m \<le> 12" and d: "1 \<le> d" "d \<le> days_in_month y m"
    using v by (simp_all add: valid_date_def)
  have "nat (m - 1) < 12" using m by linarith
  then have "d \<le> 31" using d(2) month_lengths_le [of "nat (m - 1)" "is_leap y"]
    by (simp add: days_in_month_def)
  have ny: "number (dec (nat y)) = y" and ne: "dec (nat y) \<noteq> []"
    using dec_digits [of "nat y"] y by simp_all
  have nm: "number (dec2 m) = m" using m by (simp add: number_dec2)
  have nd: "number (dec2 d) = d" using d(1) \<open>d \<le> 31\<close> by (simp add: number_dec2)
  have nh: "number (dec2 hh) = hh" using hh by (simp add: number_dec2)
  have ni: "number (dec2 mi) = mi" using mi by (simp add: number_dec2)
  have ns: "number (dec2 ss) = ss" using ss by (simp add: number_dec2)
  have fields: "length rest = 19"
    "map (\<lambda>i. rest ! i) [0, 3, 6, 9, 12] = ''-- ::''" "drop 15 rest = '' UTC''"
    "list_all (\<lambda>i. is_digit (rest ! i)) [1, 2, 4, 5, 7, 8, 10, 11, 13, 14]"
    "take 2 (drop 1 rest) = dec2 m" "take 2 (drop 4 rest) = dec2 d"
    "take 2 (drop 7 rest) = dec2 hh" "take 2 (drop 10 rest) = dec2 mi"
    "take 2 (drop 13 rest) = dec2 ss"
    by (simp_all add: rest_def dec2_def is_digit_digit)
  have "parse_utc (dec (nat y) @ rest) =
         Some ((ymd2ord y m d - 719163) * 86400 + hh * 3600 + mi * 60 + ss)"
    unfolding parse_utc_def tw dw Let_def fields ny nm nd nh ni ns
    using ne y v hh mi ss fields(4) by simp
  then show ?thesis by (simp add: rest_def)
qed

lemma utc_strftime_round_trip:
  assumes "-62135596800 \<le> ts" and "ts \<le> 253402300799"
  shows "\<exists>s. utc_strftime ts = Inr s \<and> parse_utc s = Some ts"
proof -
  define sod where "sod = ts mod 86400"
  define days where "days = ts div 86400"
  obtain y m d where o: "ord2ymd (days + 719163) = (y, m, d)"
    by (cases "ord2ymd (days + 719163)")
  have lo: "-719162 \<le> days"
    unfolding days_def using zdiv_mono1 [of "-62135596800" ts 86400] assms(1) by simp
  have hi: "days \<le> 2932896"
    unfolding days_def using zdiv_mono1 [of ts 253402300799 86400] assms(2) by simp
  have yr: "1 \<le> y \<and> y \<le> 9999"
    using ord2ymd_year [OF _ _ o] lo hi by simp
  have c: "valid_date y m d" "ymd2ord y m d = days + 719163"
    using ord2ymd_correct [OF o] by simp_all
  have s: "0 \<le> sod" "sod < 86400" by (simp_all add: sod_def)
  have ts: "ts = days * 86400 + sod" by (simp add: days_def sod_def)
  have r: "utc_strftime ts =
      Inr (dec (nat y) @ ''-'' @ dec2 m @ ''-'' @ dec2 d @ '' '' @
           dec2 (sod div 3600) @ '':'' @ dec2 (sod mod 3600 div 60) @ '':'' @
           dec2 (sod mod 60) @ '' UTC'')"
    using yr o by (simp add: utc_strftime_def days_def [symmetric] sod_def [symmetric])
  have "parse_utc (dec (nat y) @ ''-'' @ dec2 m @ ''-'' @ dec2 d @ '' '' @
           dec2 (sod div 3600) @ '':'' @ dec2 (sod mod 3600 div 60) @ '':'' @
           dec2 (sod mod 60) @ '' UTC'') = Some ts"
    using parse_rendered [OF _ c(1) time_of_day(1-6) [OF s]] yr c(2) time_of_day(7) [OF s] ts
    by simp
  then show ?thesis using r by simp
qed

lemma utc_strftime_1700000000: "utc_strftime 1700000000 = Inr ''2023-11-14 22:13:20 UTC''"
  by code_simp

lemma convert_timestamp_null_iff: "(convert_timestamp F ts = Inr JNull) = (\<not> truthy ts)"
proof (cases "truthy ts")
  case False
  then show ?thesis by (simp add: convert_timestamp_def)
next
  case True
  have "map_sum id JStr x \<noteq> Inr JNull" for x :: "error + string" by (cases x) simp_all
  then show ?thesis using True by (cases ts) (simp_all add: convert_timestamp_def)
qed

lemma and_then_InrE:
  assumes "and_then x f = Inr r"
  obtains v where "x = Inr v" "f v = Inr r"
  using assms by (cases x) simp_all

lemma chain_empty [simp]: "ks \<noteq> [] \<Longrightarrow> chain (JDict []) ks = JNull"
  by (cases ks) simp_all

lemma chain_falsy: "\<not> truthy v \<Longrightarrow> ks \<noteq> [] \<Longrightarrow> chain v ks = JNull"
  by (cases v; cases ks) simp_all

lemma chain_py_get_obj:
  "py_get v k (JDict []) = Inr w \<Longrightarrow> ks \<noteq> [] \<Longrightarrow> chain v (k # ks) = chain w ks"
  by (cases v) (auto split: option.splits)

lemma chain_py_get:
  "py_get v k JNull = Inr w \<Longrightarrow> chain v [k] = w"
  by (cases v) (auto split: option.splits)

lemma chain_get_if:
  "get_if v k = Inr w \<Longrightarrow> chain v [k] = w"
  by (cases "truthy v") (auto simp: get_if_def chain_py_get chain_falsy)

lemma chain_get_obj_if:
  "get_obj_if v k = Inr w \<Longrightarrow> ks \<noteq> [] \<Longrightarrow> chain v (k # ks) = chain w ks"
  by (cases "truthy v") (auto simp: get_obj_if_def chain_py_get_obj chain_falsy)

lemma simplify_record_chained:
  assumes "simplify_record F flight ft = Inr r"
  shows "\<exists>t. convert_timestamp F (chain flight (scheduled_path ft)) = Inr t \<and>
             r = chained_record flight ft t"
proof -
  from assms obtain identification airline_info status_info aircraft_info airport_info time_info
      num flightNumber airline status model aircraftModel
    where g: "py_get flight ''identification'' (JDict []) = Inr identification"
      "py_get flight ''airline'' (JDict []) = Inr airline_info"
      "py_get flight ''status'' (JDict []) = Inr status_info"
      "py_get flight ''aircraft'' (JDict []) = Inr aircraft_info"
      "py_get flight ''airport'' (JDict []) = Inr airport_info"
      "py_get flight ''time'' (JDict []) = Inr time_info"
      "py_get identification ''number'' (JDict []) = Inr num"
      "py_get num ''default'' JNull = Inr flightNumber"
      "get_if airline_info ''name'' = Inr airline"
      "py_get status_info ''text'' JNull = Inr status"
      "py_get aircraft_info ''model'' (JDict []) = Inr model"
      "py_get model ''text'' JNull = Inr aircraftModel"
    and rest: "(let record = [(''type'', JStr ft), (''flightNumber'', flightNumber),
                   (''airline'', airline), (''status'', status),
                   (''aircraftModel'', aircraftModel)]
     in if ft = ''arrival'' then
          and_then (py_get airport_info ''origin'' (JDict [])) (\<lambda>origin.
          and_then (py_get origin ''position'' (JDict [])) (\<lambda>origin_position.
          and_then (get_obj_if origin_position ''region'') (\<lambda>origin_region.
          and_then (get_obj_if origin_position ''country'') (\<lambda>origin_country.
          and_then (py_get origin ''name'' JNull) (\<lambda>originAirport.
          and_then (get_if origin_region ''city'') (\<lambda>originCity.
          and_then (get_if origin_country ''name'') (\<lambda>originCountry.
          and_then (and_then (and_then (py_get time_info ''scheduled'' (JDict []))
                      (\<lambda>scheduled. py_get scheduled ''arrival'' JNull))
                      (convert_timestamp F)) (\<lambda>scheduledTime.
          Inr (record @ [(''originAirport'', originAirport), (''originCity'', originCity),
                         (''originCountry'', originCountry),
                         (''scheduledTime'', scheduledTime)])))))))))
        else
          and_then (py_get airport_info ''destination'' (JDict [])) (\<lambda>destination.
          and_then (py_get destination ''position'' (JDict [])) (\<lambda>destination_position.
          and_then (get_obj_if destination_position ''region'') (\<lambda>destination_region.
          and_then (get_obj_if destination_position ''country'') (\<lambda>destination_country.
          and_then (py_get destination ''name'' JNull) (\<lambda>destinationAirport.
          and_then (get_if destination_region ''city'') (\<lambda>destinationCity.
          and_then (get_if destination_country ''name'') (\<lambda>destinationCountry.
          and_then (and_then (and_then (py_get time_info ''scheduled'' (JDict []))
                      (\<lambda>scheduled. py_get scheduled ''departure'' JNull))
                      (convert_timestamp F)) (\<lambda>scheduledTime.
          Inr (record @ [(''destinationAirport'', destinationAirport),
                         (''destinationCity'', destinationCity),
                         (''destinationCountry'', destinationCountry),
                         (''scheduledTime'', scheduledTime)])))))))))) = Inr r"
    unfolding simplify_record_def by (elim and_then_InrE) blast
  have common:
    "chain flight [''identification'', ''number'', ''default''] = flightNumber"
    "chain flight [''airline'', ''name''] = airline"
    "chain flight [''status'', ''text''] = status"
    "chain flight [''aircraft'', ''model'', ''text''] = aircraftModel"
    using g by (simp_all add: chain_py_get_obj chain_py_get chain_get_if)
  show ?thesis
  proof (cases "ft = ''arrival''")
    case True
    show ?thesis
      using rest True g common unfolding Let_def
      by (auto elim!: and_then_InrE
          simp: chained_record_def scheduled_path_def chain_py_get_obj chain_py_get chain_get_if
            chain_get_obj_if)
  next
    case False
    show ?thesis
      using rest False g common unfolding Let_def
      by (auto elim!: and_then_InrE
          simp: chained_record_def scheduled_path_def chain_py_get_obj chain_py_get chain_get_if
            chain_get_obj_if)
  qed
qed

lemma chain_lookup: "chain v ks = (case lookup v ks of None \<Rightarrow> JNull | Some w \<Rightarrow> w)"
  by (induction v ks rule: lookup.induct) (auto split: option.splits)

lemma lookup_nondict: "\<not> is_dict v \<Longrightarrow> ks \<noteq> [] \<Longrightarrow> lookup v ks = None"
  by (cases v; cases ks) simp_all

lemma lookup_empty_dict [simp]: "ks \<noteq> [] \<Longrightarrow> lookup (JDict []) ks = None"
  by (cases ks) simp_all

lemma step_plain:
  assumes "is_dict v" and "case lookup v [k] of None \<Rightarrow> True | Some w \<Rightarrow> is_dict w"
  obtains w where "py_get v k (JDict []) = Inr w" and "is_dict w"
    and "\<And>ks. ks \<noteq> [] \<Longrightarrow> lookup w ks = lookup v (k # ks)"
proof -
  obtain d where v: "v = JDict d" using assms(1) by (cases v) simp_all
  show thesis
  proof (cases "map_of d k")
    case None
    show thesis
      by (rule that [of "JDict []"]) (simp_all add: v None)
  next
    case (Some w)
    show thesis
      using assms(2) by (intro that [of w]) (simp_all add: v Some)
  qed
qed

lemma step_guarded:
  assumes "is_dict v"
    and "case lookup v [k] of None \<Rightarrow> True | Some w \<Rightarrow> is_dict w \<or> \<not> truthy w"
  obtains w where "py_get v k (JDict []) = Inr w" and "is_dict w \<or> \<not> truthy w"
    and "\<And>ks. ks \<noteq> [] \<Longrightarrow> lookup w ks = lookup v (k # ks)"
proof -
  obtain d where v: "v = JDict d" using assms(1) by (cases v) simp_all
  show thesis
  proof (cases "map_of d k")
    case None
    show thesis
      by (rule that [of "JDict []"]) (simp_all add: v None)
  next
    case (Some w)
    show thesis
      using assms(2) by (intro that [of w]) (simp_all add: v Some)
  qed
qed

lemma step_guarded_below:
  assumes "is_dict v \<or> \<not> truthy v"
    and "case lookup v [k] of None \<Rightarrow> True | Some w \<Rightarrow> is_dict w \<or> \<not> truthy w"
  obtains w where "get_obj_if v k = Inr w" and "is_dict w \<or> \<not> truthy w"
    and "\<And>ks. ks \<noteq> [] \<Longrightarrow> lookup w ks = lookup v (k # ks)"
proof (cases "truthy v")
  case True
  then have d: "is_dict v" using assms(1) by simp
  from step_guarded [OF d assms(2)] obtain w where
    "py_get v k (JDict []) = Inr w" "is_dict w \<or> \<not> truthy w"
    "\<And>ks. ks \<noteq> [] \<Longrightarrow> lookup w ks = lookup v (k # ks)" by blast
  then show thesis using True by (intro that [of w]) (simp_all add: get_obj_if_def)
next
  case False
  have "lookup v (k # ks) = None" for ks
    using False by (cases v) simp_all
  then show thesis
    using False by (intro that [of "JDict []"]) (simp_all add: get_obj_if_def)
qed

lemma leaf_plain: "is_dict v \<Longrightarrow> py_get v k JNull = Inr (chain v [k])"
  by (cases v) (auto split: option.splits)

lemma leaf_guarded: "is_dict v \<or> \<not> truthy v \<Longrightarrow> get_if v k = Inr (chain v [k])"
  by (cases "truthy v") (auto simp: get_if_def leaf_plain chain_falsy)

lemma chain_of_lookup:
  "(\<And>ks. ks \<noteq> [] \<Longrightarrow> lookup w ks = lookup v (k # ks)) \<Longrightarrow> ks \<noteq> [] \<Longrightarrow>
   chain w ks = chain v (k # ks)"
  by (simp add: chain_lookup)

lemma well_shaped_gets:
  assumes ws: "well_shaped flight ft" and X: "X = place ft"
  obtains identification airline_info status_info aircraft_info airport_info time_info
    num model origin pos reg co scheduled
  where "py_get flight ''identification'' (JDict []) = Inr identification"
    and "py_get flight ''airline'' (JDict []) = Inr airline_info"
    and "py_get flight ''status'' (JDict []) = Inr status_info"
    and "py_get flight ''aircraft'' (JDict []) = Inr aircraft_info"
    and "py_get flight ''airport'' (JDict []) = Inr airport_info"
    and "py_get flight ''time'' (JDict []) = Inr time_info"
    and "py_get identification ''number'' (JDict []) = Inr num"
    and "py_get num ''default'' JNull =
           Inr (chain flight [''identification'', ''number'', ''default''])"
    and "get_if airline_info ''name'' = Inr (chain flight [''airline'', ''name''])"
    and "py_get status_info ''text'' JNull = Inr (chain flight [''status'', ''text''])"
    and "py_get aircraft_info ''model'' (JDict []) = Inr model"
    and "py_get model ''text'' JNull = Inr (chain flight [''aircraft'', ''model'', ''text''])"
    and "py_get airport_info X (JDict []) = Inr origin"
    and "py_get origin ''position'' (JDict []) = Inr pos"
    and "get_obj_if pos ''region'' = Inr reg"
    and "get_obj_if pos ''country'' = Inr co"
    and "py_get origin ''name'' JNull = Inr (chain flight [''airport'', X, ''name''])"
    and "get_if reg ''city'' = Inr (chain flight [''airport'', X, ''position'', ''region'', ''city''])"
    and "get_if co ''name'' = Inr (chain flight [''airport'', X, ''position'', ''country'', ''name''])"
    and "py_get time_info ''scheduled'' (JDict []) = Inr scheduled"
    and "\<And>k. py_get scheduled k JNull = Inr (chain flight [''time'', ''scheduled'', k])"
proof -
  from ws have d0: "is_dict flight" by (simp add: well_shaped_def)
  from ws X have p:
    "case lookup flight [''identification''] of None \<Rightarrow> True | Some v \<Rightarrow> is_dict v"
    "case lookup flight [''identification'', ''number''] of None \<Rightarrow> True | Some v \<Rightarrow> is_dict v"
    "case lookup flight [''status''] of None \<Rightarrow> True | Some v \<Rightarrow> is_dict v"
    "case lookup flight [''aircraft''] of None \<Rightarrow> True | Some v \<Rightarrow> is_dict v"
    "case lookup flight [''aircraft'', ''model''] of None \<Rightarrow> True | Some v \<Rightarrow> is_dict v"
    "case lookup flight [''airport''] of None \<Rightarrow> True | Some v \<Rightarrow> is_dict v"
    "case lookup flight [''airport'', X] of None \<Rightarrow> True | Some v \<Rightarrow> is_dict v"
    "case lookup flight [''time''] of None \<Rightarrow> True | Some v \<Rightarrow> is_dict v"
    "case lookup flight [''time'', ''scheduled''] of None \<Rightarrow> True | Some v \<Rightarrow> is_dict v"
    by (simp_all add: well_shaped_def plain_paths_def)
  from ws X have q:
    "case lookup flight [''airline''] of None \<Rightarrow> True | Some v \<Rightarrow> is_dict v \<or> \<not> truthy v"
    "case lookup flight [''airport'', X, ''position''] of
       None \<Rightarrow> True | Some v \<Rightarrow> is_dict v \<or> \<not> truthy v"
    "case lookup flight [''airport'', X, ''position'', ''region''] of
       None \<Rightarrow> True | Some v \<Rightarrow> is_dict v \<or> \<not> truthy v"
    "case lookup flight [''airport'', X, ''position'', ''country''] of
       None \<Rightarrow> True | Some v \<Rightarrow> is_dict v \<or> \<not> truthy v"
    by (simp_all add: well_shaped_def guarded_paths_def)
  from step_plain [OF d0 p(1)] obtain identification where
    i: "py_get flight ''identification'' (JDict []) = Inr identification" "is_dict identification"
      "\<And>ks. ks \<noteq> [] \<Longrightarrow> lookup identification ks = lookup flight (''identification'' # ks)"
    by blast
  have "case lookup identification [''number''] of None \<Rightarrow> True | Some v \<Rightarrow> is_dict v"
    using p(2) i(3) [of "[''number'']"] by simp
  from step_plain [OF i(2) this] obtain num where
    n: "py_get identification ''number'' (JDict []) = Inr num" "is_dict num"
      "\<And>ks. ks \<noteq> [] \<Longrightarrow> lookup num ks = lookup identification (''number'' # ks)"
    by blast
  have n': "py_get num ''default'' JNull =
      Inr (chain flight [''identification'', ''number'', ''default''])"
    using leaf_plain [OF n(2), of "''default''"] n(3) [of "[''default'']"]
      i(3) [of "[''number'', ''default'']"] by (simp add: chain_lookup)
  from step_guarded [OF d0 q(1)] obtain airline_info where
    al: "py_get flight ''airline'' (JDict []) = Inr airline_info"
      "is_dict airline_info \<or> \<not> truthy airline_info"
      "\<And>ks. ks \<noteq> [] \<Longrightarrow> lookup airline_info ks = lookup flight (''airline'' # ks)"
    by blast
  have al': "get_if airline_info ''name'' = Inr (chain flight [''airline'', ''name''])"
    using leaf_guarded [OF al(2), of "''name''"] al(3) [of "[''name'']"]
    by (simp add: chain_lookup)
  from step_plain [OF d0 p(3)] obtain status_info where
    st: "py_get flight ''status'' (JDict []) = Inr status_info" "is_dict status_info"
      "\<And>ks. ks \<noteq> [] \<Longrightarrow> lookup status_info ks = lookup flight (''status'' # ks)"
    by blast
  have st': "py_get status_info ''text'' JNull = Inr (chain flight [''status'', ''text''])"
    using leaf_plain [OF st(2), of "''text''"] st(3) [of "[''text'']"]
    by (simp add: chain_lookup)
  from step_plain [OF d0 p(4)] obtain aircraft_info where
    ac: "py_get flight ''aircraft'' (JDict []) = Inr aircraft_info" "is_dict aircraft_info"
      "\<And>ks. ks \<noteq> [] \<Longrightarrow> lookup aircraft_info ks = lookup flight (''aircraft'' # ks)"
    by blast
  have "case lookup aircraft_info [''model''] of None \<Rightarrow> True | Some v \<Rightarrow> is_dict v"
    using p(5) ac(3) [of "[''model'']"] by simp
  from step_plain [OF ac(2) this] obtain model where
    mo: "py_get aircraft_info ''model'' (JDict []) = Inr model" "is_dict model"
      "\<And>ks. ks \<noteq> [] \<Longrightarrow> lookup model ks = lookup aircraft_info (''model'' # ks)"
    by blast
  have mo': "py_get model ''text'' JNull = Inr (chain flight [''aircraft'', ''model'', ''text''])"
    using leaf_plain [OF mo(2), of "''text''"] mo(3) [of "[''text'']"]
      ac(3) [of "[''model'', ''text'']"] by (simp add: chain_lookup)
  from step_plain [OF d0 p(6)] obtain airport_info where
    ap: "py_get flight ''airport'' (JDict []) = Inr airport_info" "is_dict airport_info"
      "\<And>ks. ks \<noteq> [] \<Longrightarrow> lookup airport_info ks = lookup flight (''airport'' # ks)"
    by blast
  have "case lookup airport_info [X] of None \<Rightarrow> True | Some v \<Rightarrow> is_dict v"
    using p(7) ap(3) [of "[X]"] by simp
  from step_plain [OF ap(2) this] obtain origin where
    og: "py_get airport_info X (JDict []) = Inr origin" "is_dict origin"
      "\<And>ks. ks \<noteq> [] \<Longrightarrow> lookup origin ks = lookup airport_info (X # ks)"
    by blast
  have og3: "lookup origin ks = lookup flight (''airport'' # X # ks)" if "ks \<noteq> []" for ks
    using og(3) [OF that] ap(3) [of "X # ks"] by simp
  have og': "py_get origin ''name'' JNull = Inr (chain flight [''airport'', X, ''name''])"
    using leaf_plain [OF og(2), of "''name''"] og3 [of "[''name'']"]
    by (simp add: chain_lookup)
  have "case lookup origin [''position''] of None \<Rightarrow> True | Some v \<Rightarrow> is_dict v \<or> \<not> truthy v"
    using q(2) og3 [of "[''position'']"] by simp
  from step_guarded [OF og(2) this] obtain pos where
    po: "py_get origin ''position'' (JDict []) = Inr pos" "is_dict pos \<or> \<not> truthy pos"
      "\<And>ks. ks \<noteq> [] \<Longrightarrow> lookup pos ks = lookup origin (''position'' # ks)"
    by blast
  have po3: "lookup pos ks = lookup flight (''airport'' # X # ''position'' # ks)"
    if "ks \<noteq> []" for ks
    using po(3) [OF that] og3 [of "''position'' # ks"] by simp
  have "case lookup pos [''region''] of None \<Rightarrow> True | Some v \<Rightarrow> is_dict v \<or> \<not> truthy v"
    using q(3) po3 [of "[''region'']"] by simp
  from step_guarded_below [OF po(2) this] obtain reg where
    re: "get_obj_if pos ''region'' = Inr reg" "is_dict reg \<or> \<not> truthy reg"
      "\<And>ks. ks \<noteq> [] \<Longrightarrow> lookup reg ks = lookup pos (''region'' # ks)"
    by blast
  have re': "get_if reg ''city'' =
      Inr (chain flight [''airport'', X, ''position'', ''region'', ''city''])"
    using leaf_guarded [OF re(2), of "''city''"] re(3) [of "[''city'']"]
      po3 [of "[''region'', ''city'']"] by (simp add: chain_lookup)
  have "case lookup pos [''country''] of None \<Rightarrow> True | Some v \<Rightarrow> is_dict v \<or> \<not> truthy v"
    using q(4) po3 [of "[''country'']"] by simp
  from step_guarded_below [OF po(2) this] obtain co where
    co: "get_obj_if pos ''country'' = Inr co" "is_dict co \<or> \<not> truthy co"
      "\<And>ks. ks \<noteq> [] \<Longrightarrow> lookup co ks = lookup pos (''country'' # ks)"
    by blast
  have co': "get_if co ''name'' =
      Inr (chain flight [''airport'', X, ''position'', ''country'', ''name''])"
    using leaf_guarded [OF co(2), of "''name''"] co(3) [of "[''name'']"]
      po3 [of "[''country'', ''name'']"] by (simp add: chain_lookup)
  from step_plain [OF d0 p(8)] obtain time_info where
    ti: "py_get flight ''time'' (JDict []) = Inr time_info" "is_dict time_info"
      "\<And>ks. ks \<noteq> [] \<Longrightarrow> lookup time_info ks = lookup flight (''time'' # ks)"
    by blast
  have "case lookup time_info [''scheduled''] of None \<Rightarrow> True | Some v \<Rightarrow> is_dict v"
    using p(9) ti(3) [of "[''scheduled'']"] by simp
  from step_plain [OF ti(2) this] obtain scheduled where
    sc: "py_get time_info ''scheduled'' (JDict []) = Inr scheduled" "is_dict scheduled"
      "\<And>ks. ks \<noteq> [] \<Longrightarrow> lookup scheduled ks = lookup time_info (''scheduled'' # ks)"
    by blast
  have sc': "py_get scheduled k JNull = Inr (chain flight [''time'', ''scheduled'', k])" for k
    using leaf_plain [OF sc(2), of k] sc(3) [of "[k]"] ti(3) [of "[''scheduled'', k]"]
    by (simp add: chain_lookup)
  show thesis
    by (rule that [OF i(1) al(1) st(1) ac(1) ap(1) ti(1) n(1) n' al' st' mo(1) mo' og(1) po(1)
          re(1) co(1) og' re' co' sc(1) sc'])
qed

lemma simplify_record_well_shaped:
  assumes "well_shaped flight ft"
  shows "simplify_record F flight ft =
    map_sum id (chained_record flight ft) (convert_timestamp F (chain flight (scheduled_path ft)))"
proof (cases "ft = ''arrival''")
  case True
  then have X: "''origin'' = place ft" by (simp add: place_def)
  from well_shaped_gets [OF assms X] obtain identification airline_info status_info
    aircraft_info airport_info time_info num model origin pos reg co scheduled
    where g: "py_get flight ''identification'' (JDict []) = Inr identification"
     "py_get flight ''airline'' (JDict []) = Inr airline_info"
     "py_get flight ''status'' (JDict []) = Inr status_info"
     "py_get flight ''aircraft'' (JDict []) = Inr aircraft_info"
     "py_get flight ''airport'' (JDict []) = Inr airport_info"
     "py_get flight ''time'' (JDict []) = Inr time_info"
     "py_get identification ''number'' (JDict []) = Inr num"
     "py_get num ''default'' JNull =
           Inr (chain flight [''identification'', ''number'', ''default''])"
     "get_if airline_info ''name'' = Inr (chain flight [''airline'', ''name''])"
     "py_get status_info ''text'' JNull = Inr (chain flight [''status'', ''text''])"
     "py_get aircraft_info ''model'' (JDict []) = Inr model"
     "py_get model ''text'' JNull = Inr (chain flight [''aircraft'', ''model'', ''text''])"
     "py_get airport_info ''origin'' (JDict []) = Inr origin"
     "py_get origin ''position'' (JDict []) = Inr pos"
     "get_obj_if pos ''region'' = Inr reg"
     "get_obj_if pos ''country'' = Inr co"
     "py_get origin ''name'' JNull = Inr (chain flight [''airport'', ''origin'', ''name''])"
     "get_if reg ''city'' =
        Inr (chain flight [''airport'', ''origin'', ''position'', ''region'', ''city''])"
     "get_if co ''name'' =
        Inr (chain flight [''airport'', ''origin'', ''position'', ''country'', ''name''])"
     "py_get time_info ''scheduled'' (JDict []) = Inr scheduled"
     "\<And>k. py_get scheduled k JNull = Inr (chain flight [''time'', ''scheduled'', k])"
    by blast
  show ?thesis
    using True
    by (cases "convert_timestamp F (chain flight [''time'', ''scheduled'', ''arrival''])")
       (simp_all add: simplify_record_def g chained_record_def scheduled_path_def)
next
  case False
  then have X: "''destination'' = place ft" by (simp add: place_def)
  from well_shaped_gets [OF assms X] obtain identification airline_info status_info
    aircraft_info airport_info time_info num model origin pos reg co scheduled
    where g: "py_get flight ''identification'' (JDict []) = Inr identification"
     "py_get flight ''airline'' (JDict []) = Inr airline_info"
     "py_get flight ''status'' (JDict []) = Inr status_info"
     "py_get flight ''aircraft'' (JDict []) = Inr aircraft_info"
     "py_get flight ''airport'' (JDict []) = Inr airport_info"
     "py_get flight ''time'' (JDict []) = Inr time_info"
     "py_get identification ''number'' (JDict []) = Inr num"
     "py_get num ''default'' JNull =
           Inr (chain flight [''identification'', ''number'', ''default''])"
     "get_if airline_info ''name'' = Inr (chain flight [''airline'', ''name''])"
     "py_get status_info ''text'' JNull = Inr (chain flight [''status'', ''text''])"
     "py_get aircraft_info ''model'' (JDict []) = Inr model"
     "py_get model ''text'' JNull = Inr (chain flight [''aircraft'', ''model'', ''text''])"
     "py_get airport_info ''destination'' (JDict []) = Inr origin"
     "py_get origin ''position'' (JDict []) = Inr pos"
     "get_obj_if pos ''region'' = Inr reg"
     "get_obj_if pos ''country'' = Inr co"
     "py_get origin ''name'' JNull = Inr (chain flight [''airport'', ''destination'', ''name''])"
     "get_if reg ''city'' =
        Inr (chain flight [''airport'', ''destination'', ''position'', ''region'', ''city''])"
     "get_if co ''name'' =
        Inr (chain flight [''airport'', ''destination'', ''position'', ''country'', ''name''])"
     "py_get time_info ''scheduled'' (JDict []) = Inr scheduled"
     "\<And>k. py_get scheduled k JNull = Inr (chain flight [''time'', ''scheduled'', k])"
    by blast
  show ?thesis
    using False
    by (cases "convert_timestamp F (chain flight [''time'', ''scheduled'', ''departure''])")
       (simp_all add: simplify_record_def g chained_record_def scheduled_path_def)
qed

lemma py_get_is_dict: "py_get v k dflt = Inr w \<Longrightarrow> is_dict v"
  by (cases v) simp_all

lemma py_get_lookup:
  "py_get v k dflt = Inr w \<Longrightarrow> lookup v (k # ks) = Some x \<Longrightarrow> lookup w ks = Some x"
  by (cases v) (auto split: option.splits)

lemma get_if_shape: "get_if v k = Inr w \<Longrightarrow> is_dict v \<or> \<not> truthy v"
  by (cases "truthy v") (auto simp: get_if_def dest: py_get_is_dict)

lemma get_obj_if_shape: "get_obj_if v k = Inr w \<Longrightarrow> is_dict v \<or> \<not> truthy v"
  by (cases "truthy v") (auto simp: get_obj_if_def dest: py_get_is_dict)

lemma get_obj_if_lookup:
  "get_obj_if v k = Inr w \<Longrightarrow> lookup v (k # ks) = Some x \<Longrightarrow> lookup w ks = Some x"
  by (cases v) (auto simp: get_obj_if_def split: option.splits if_splits)

lemma simplify_record_gets:
  assumes ok: "simplify_record F flight ft = Inr r" and X: "X = place ft"
  shows "\<exists>identification airline_info status_info aircraft_info airport_info time_info
    num model origin pos reg co scheduled a1 a2 a3 a4 a5 a6 a7 a8.
    py_get flight ''identification'' (JDict []) = Inr identification
    \<and> py_get flight ''airline'' (JDict []) = Inr airline_info
    \<and> py_get flight ''status'' (JDict []) = Inr status_info
    \<and> py_get flight ''aircraft'' (JDict []) = Inr aircraft_info
    \<and> py_get flight ''airport'' (JDict []) = Inr airport_info
    \<and> py_get flight ''time'' (JDict []) = Inr time_info
    \<and> py_get identification ''number'' (JDict []) = Inr num
    \<and> py_get num ''default'' JNull = Inr a1
    \<and> get_if airline_info ''name'' = Inr a2
    \<and> py_get status_info ''text'' JNull = Inr a3
    \<and> py_get aircraft_info ''model'' (JDict []) = Inr model
    \<and> py_get model ''text'' JNull = Inr a4
    \<and> py_get airport_info X (JDict []) = Inr origin
    \<and> py_get origin ''position'' (JDict []) = Inr pos
    \<and> get_obj_if pos ''region'' = Inr reg
    \<and> get_obj_if pos ''country'' = Inr co
    \<and> py_get origin ''name'' JNull = Inr a5
    \<and> get_if reg ''city'' = Inr a6
    \<and> get_if co ''name'' = Inr a7
    \<and> py_get time_info ''scheduled'' (JDict []) = Inr scheduled
    \<and> py_get scheduled (if ft = ''arrival'' then ''arrival'' else ''departure'') JNull = Inr a8"
proof (cases "ft = ''arrival''")
  case True
  then have X': "X = ''origin''" using X by (simp add: place_def)
  show ?thesis
    using ok True unfolding simplify_record_def Let_def X'
    by (auto elim!: and_then_InrE)
next
  case False
  then have X': "X = ''destination''" using X by (simp add: place_def)
  show ?thesis
    using ok False unfolding simplify_record_def Let_def X'
    by (auto elim!: and_then_InrE)
qed

lemma success_not_wrong_typed:
  assumes "simplify_record F flight ft = Inr r"
  shows "\<not> wrong_typed flight ft"
proof -
  define X where "X = place ft"
  from simplify_record_gets [OF assms X_def] obtain identification airline_info status_info
    aircraft_info airport_info time_info num model origin pos reg co scheduled
    a1 a2 a3 a4 a5 a6 a7 a8
    where g1: "py_get flight ''identification'' (JDict []) = Inr identification"
    and g2: "py_get flight ''airline'' (JDict []) = Inr airline_info"
    and g3: "py_get flight ''status'' (JDict []) = Inr status_info"
    and g4: "py_get flight ''aircraft'' (JDict []) = Inr aircraft_info"
    and g5: "py_get flight ''airport'' (JDict []) = Inr airport_info"
    and g6: "py_get flight ''time'' (JDict []) = Inr time_info"
    and g7: "py_get identification ''number'' (JDict []) = Inr num"
    and g8: "py_get num ''default'' JNull = Inr a1"
    and g9: "get_if airline_info ''name'' = Inr a2"
    and g10: "py_get status_info ''text'' JNull = Inr a3"
    and g11: "py_get aircraft_info ''model'' (JDict []) = Inr model"
    and g12: "py_get model ''text'' JNull = Inr a4"
    and g13: "py_get airport_info X (JDict []) = Inr origin"
    and g14: "py_get origin ''position'' (JDict []) = Inr pos"
    and g15: "get_obj_if pos ''region'' = Inr reg"
    and g16: "get_obj_if pos ''country'' = Inr co"
    and g17: "py_get origin ''name'' JNull = Inr a5"
    and g18: "get_if reg ''city'' = Inr a6"
    and g19: "get_if co ''name'' = Inr a7"
    and g20: "py_get time_info ''scheduled'' (JDict []) = Inr scheduled"
    and g21: "py_get scheduled (if ft = ''arrival'' then ''arrival'' else ''departure'') JNull =
        Inr a8"
    by (elim exE conjE) (rule that; assumption)
  have d0: "is_dict flight" using g1 by (rule py_get_is_dict)
  have plain: "\<not> (case lookup flight p of None \<Rightarrow> False | Some v \<Rightarrow> truthy v \<and> \<not> is_dict v)"
    if "\<And>v. lookup flight p = Some v \<Longrightarrow> is_dict v" for p
    using that by (cases "lookup flight p") auto
  have guarded: "\<not> (case lookup flight p of None \<Rightarrow> False | Some v \<Rightarrow> truthy v \<and> \<not> is_dict v)"
    if "\<And>v. lookup flight p = Some v \<Longrightarrow> is_dict v \<or> \<not> truthy v" for p
    using that by (cases "lookup flight p") auto
  have p1: "\<not> (case lookup flight [''identification''] of
      None \<Rightarrow> False | Some v \<Rightarrow> truthy v \<and> \<not> is_dict v)"
  proof (rule plain)
    fix v assume "lookup flight [''identification''] = Some v"
    from py_get_lookup [OF g1 this] py_get_is_dict [OF g7] show "is_dict v" by simp
  qed
  have p2: "\<not> (case lookup flight [''identification'', ''number''] of
      None \<Rightarrow> False | Some v \<Rightarrow> truthy v \<and> \<not> is_dict v)"
  proof (rule plain)
    fix v assume "lookup flight [''identification'', ''number''] = Some v"
    from py_get_lookup [OF g7 py_get_lookup [OF g1 this]] py_get_is_dict [OF g8]
    show "is_dict v" by simp
  qed
  have p3: "\<not> (case lookup flight [''status''] of
      None \<Rightarrow> False | Some v \<Rightarrow> truthy v \<and> \<not> is_dict v)"
  proof (rule plain)
    fix v assume "lookup flight [''status''] = Some v"
    from py_get_lookup [OF g3 this] py_get_is_dict [OF g10] show "is_dict v" by simp
  qed
  have p4: "\<not> (case lookup flight [''aircraft''] of
      None \<Rightarrow> False | Some v \<Rightarrow> truthy v \<and> \<not> is_dict v)"
  proof (rule plain)
    fix v assume "lookup flight [''aircraft''] = Some v"
    from py_get_lookup [OF g4 this] py_get_is_dict [OF g11] show "is_dict v" by simp
  qed
  have p5: "\<not> (case lookup flight [''aircraft'', ''model''] of
      None \<Rightarrow> False | Some v \<Rightarrow> truthy v \<and> \<not> is_dict v)"
  proof (rule plain)
    fix v assume "lookup flight [''aircraft'', ''model''] = Some v"
    from py_get_lookup [OF g11 py_get_lookup [OF g4 this]] py_get_is_dict [OF g12]
    show "is_dict v" by simp
  qed
  have p6: "\<not> (case lookup flight [''airport''] of
      None \<Rightarrow> False | Some v \<Rightarrow> truthy v \<and> \<not> is_dict v)"
  proof (rule plain)
    fix v assume "lookup flight [''airport''] = Some v"
    from py_get_lookup [OF g5 this] py_get_is_dict [OF g13] show "is_dict v" by simp
  qed
  have p7: "\<not> (case lookup flight [''airport'', X] of
      None \<Rightarrow> False | Some v \<Rightarrow> truthy v \<and> \<not> is_dict v)"
  proof (rule plain)
    fix v assume "lookup flight [''airport'', X] = Some v"
    from py_get_lookup [OF g13 py_get_lookup [OF g5 this]] py_get_is_dict [OF g14]
    show "is_dict v" by simp
  qed
  have p8: "\<not> (case lookup flight [''time''] of
      None \<Rightarrow> False | Some v \<Rightarrow> truthy v \<and> \<not> is_dict v)"
  proof (rule plain)
    fix v assume "lookup flight [''time''] = Some v"
    from py_get_lookup [OF g6 this] py_get_is_dict [OF g20] show "is_dict v" by simp
  qed
  have p9: "\<not> (case lookup flight [''time'', ''scheduled''] of
      None \<Rightarrow> False | Some v \<Rightarrow> truthy v \<and> \<not> is_dict v)"
  proof (rule plain)
    fix v assume "lookup flight [''time'', ''scheduled''] = Some v"
    from py_get_lookup [OF g20 py_get_lookup [OF g6 this]] py_get_is_dict [OF g21]
    show "is_dict v" by simp
  qed
  have q1: "\<not> (case lookup flight [''airline''] of
      None \<Rightarrow> False | Some v \<Rightarrow> truthy v \<and> \<not> is_dict v)"
  proof (rule guarded)
    fix v assume "lookup flight [''airline''] = Some v"
    from py_get_lookup [OF g2 this] get_if_shape [OF g9]
    show "is_dict v \<or> \<not> truthy v" by simp
  qed
  have q2: "\<not> (case lookup flight [''airport'', X, ''position''] of
      None \<Rightarrow> False | Some v \<Rightarrow> truthy v \<and> \<not> is_dict v)"
  proof (rule guarded)
    fix v assume "lookup flight [''airport'', X, ''position''] = Some v"
    from py_get_lookup [OF g14 py_get_lookup [OF g13 py_get_lookup [OF g5 this]]]
      get_obj_if_shape [OF g15]
    show "is_dict v \<or> \<not> truthy v" by simp
  qed
  have q3: "\<not> (case lookup flight [''airport'', X, ''position'', ''region''] of
      None \<Rightarrow> False | Some v \<Rightarrow> truthy v \<and> \<not> is_dict v)"
  proof (rule guarded)
    fix v assume "lookup flight [''airport'', X, ''position'', ''region''] = Some v"
    from get_obj_if_lookup [OF g15
        py_get_lookup [OF g14 py_get_lookup [OF g13 py_get_lookup [OF g5 this]]]]
      get_if_shape [OF g18]
    show "is_dict v \<or> \<not> truthy v" by simp
  qed
  have q4: "\<not> (case lookup flight [''airport'', X, ''position'', ''country''] of
      None \<Rightarrow> False | Some v \<Rightarrow> truthy v \<and> \<not> is_dict v)"
  proof (rule guarded)
    fix v assume "lookup flight [''airport'', X, ''position'', ''country''] = Some v"
    from get_obj_if_lookup [OF g16
        py_get_lookup [OF g14 py_get_lookup [OF g13 py_get_lookup [OF g5 this]]]]
      get_if_shape [OF g19]
    show "is_dict v \<or> \<not> truthy v" by simp
  qed
  show ?thesis
    unfolding wrong_typed_def plain_paths_def guarded_paths_def X_def [symmetric]
    using d0 p1 p2 p3 p4 p5 p6 p7 p8 p9 q1 q2 q3 q4
    by simp
qed

lemma simplify_record_wrong_typed:
  "wrong_typed flight ft \<Longrightarrow> \<exists>e. simplify_record F flight ft = Inl e"
  using success_not_wrong_typed [of F flight ft]
  by (cases "simplify_record F flight ft") auto

lemma map_of_filter_absent:
  "a \<notin> fst ` set xs \<Longrightarrow> map_of (filter Q xs) a = None"
  by (induction xs) auto

lemma getFlights_hit:
  assumes "map_of (filter (fresh now) (entries st)) (uppercase a) = Some (fl, c)"
  shows "getFlights F P now a st =
    (fl, st\<lparr>entries := filter (\<lambda>e. fst e \<noteq> uppercase a) (filter (fresh now) (entries st)) @
                         [(uppercase a, fl, c)]\<rparr>)"
  using assms by (simp add: getFlights_def Let_def)

lemma getFlights_miss:
  assumes "map_of (filter (fresh now) (entries st)) (uppercase a) = None"
  shows "getFlights F P now a st =
    (get_flight_data F (P now) a,
     \<lparr>entries =
        (if maxsize < length (filter (fresh now) (entries st) @
                               [(uppercase a, get_flight_data F (P now) a, now)])
         then tl (filter (fresh now) (entries st) @
                    [(uppercase a, get_flight_data F (P now) a, now)])
         else filter (fresh now) (entries st) @
                [(uppercase a, get_flight_data F (P now) a, now)]),
      rounds = rounds st + 1\<rparr>)"
  using assms by (simp add: getFlights_def Let_def)

lemma after_call:
  assumes "getFlights F P now a st = (r, s')"
  shows "\<exists>xs c. entries s' = xs @ [(uppercase a, r, c)] \<and> uppercase a \<notin> fst ` set xs \<and>
           now < c + ttl \<and>
           (rounds s' = rounds st + 1 \<and> c = now \<and> r = get_flight_data F (P now) a \<or>
            rounds s' = rounds st \<and> (uppercase a, r, c) \<in> set (entries st))"
proof (cases "map_of (filter (fresh now) (entries st)) (uppercase a)")
  case None
  define kept where "kept = filter (fresh now) (entries st)"
  define e where "e = (uppercase a, get_flight_data F (P now) a, now)"
  have nk: "uppercase a \<notin> fst ` set kept"
    using None map_of_eq_None_iff [of kept "uppercase a"] by (simp add: kept_def)
  have g: "getFlights F P now a st =
      (get_flight_data F (P now) a,
       \<lparr>entries = (if maxsize < length (kept @ [e]) then tl (kept @ [e]) else kept @ [e]),
        rounds = rounds st + 1\<rparr>)"
    using getFlights_miss [OF None, of F P] by (simp add: kept_def e_def)
  have r: "r = get_flight_data F (P now) a"
    and s': "s' = \<lparr>entries = (if maxsize < length (kept @ [e]) then tl (kept @ [e]) else kept @ [e]),
        rounds = rounds st + 1\<rparr>"
    using assms g by simp_all
  show ?thesis
  proof (cases "maxsize < length (kept @ [e])")
    case True
    then have ne: "kept \<noteq> []" by (auto simp: maxsize_def)
    then have t: "tl (kept @ [e]) = tl kept @ [e]" by simp
    have "set (tl kept) \<subseteq> set kept" using ne by (metis list.set_sel(2) subsetI)
    then have "uppercase a \<notin> fst ` set (tl kept)" using nk by blast
    then show ?thesis
      using True r s' t
      by (intro exI [of _ "tl kept"] exI [of _ now]) (simp add: ttl_def e_def)
  next
    case False
    then show ?thesis
      using nk r s'
      by (intro exI [of _ kept] exI [of _ now]) (simp add: ttl_def e_def)
  qed
next
  case (Some v)
  obtain fl c where v: "v = (fl, c)" by (cases v)
  have m: "map_of (filter (fresh now) (entries st)) (uppercase a) = Some (fl, c)"
    using Some v by simp
  then have mem: "(uppercase a, fl, c) \<in> set (filter (fresh now) (entries st))"
    by (rule map_of_SomeD)
  then have "now < c + ttl" "(uppercase a, fl, c) \<in> set (entries st)"
    by (simp_all add: fresh_def)
  moreover have "r = fl"
    "s' = st\<lparr>entries := filter (\<lambda>e. fst e \<noteq> uppercase a) (filter (fresh now) (entries st)) @
                          [(uppercase a, fl, c)]\<rparr>"
    using assms getFlights_hit [OF m, of F P] by auto
  ultimately show ?thesis
    by (intro exI [of _ "filter (\<lambda>e. fst e \<noteq> uppercase a) (filter (fresh now) (entries st))"]
        exI [of _ c]) auto
qed

lemma served_when_last:
  assumes "entries st = xs @ [(uppercase a, r, c)]" and "uppercase a \<notin> fst ` set xs"
    and "now < c + ttl"
  shows "getFlights F P now a st =
    (r, st\<lparr>entries := filter (\<lambda>e. fst e \<noteq> uppercase a) (filter (fresh now) (entries st)) @
                        [(uppercase a, r, c)]\<rparr>)"
proof -
  have "map_of (filter (fresh now) (entries st)) (uppercase a) = Some (r, c)"
    using assms by (simp add: fresh_def map_of_filter_absent map_add_def)
  from getFlights_hit [OF this, of F P] show ?thesis .
qed

lemma refetch_when_expired:
  assumes "\<forall>fl c. (uppercase a, fl, c) \<in> set (entries st) \<longrightarrow> c + ttl \<le> now"
  shows "fst (getFlights F P now a st) = get_flight_data F (P now) a \<and>
         rounds (snd (getFlights F P now a st)) = rounds st + 1"
proof -
  have "map_of (filter (fresh now) (entries st)) (uppercase a) = None"
  proof (cases "map_of (filter (fresh now) (entries st)) (uppercase a)")
    case None
    then show ?thesis .
  next
    case (Some v)
    obtain fl c where "v = (fl, c)" by (cases v)
    with Some have "(uppercase a, fl, c) \<in> set (filter (fresh now) (entries st))"
      by (auto dest: map_of_SomeD)
    then have "(uppercase a, fl, c) \<in> set (entries st)" "now < c + ttl"
      by (simp_all add: fresh_def)
    with assms show ?thesis by fastforce
  qed
  from getFlights_miss [OF this, of F P] show ?thesis by simp
qed

lemma rounds_step:
  "rounds (snd (getFlights F P now a st)) = rounds st \<or>
   rounds (snd (getFlights F P now a st)) = rounds st + 1"
  using after_call [of F P now a st "fst (getFlights F P now a st)" "snd (getFlights F P now a st)"]
  by auto

lemma first_call_rounds: "rounds (snd (getFlights F P now a empty_cache)) = 1"
  by (simp add: getFlights_def empty_cache_def Let_def)

lemma valid_airports_uppercase:
  "code \<in> set valid_airports \<Longrightarrow> uppercase code = code"
  by (auto simp: valid_airports_def uppercase_def upper_char_def)

lemma api_ask_accepted:
  "valid_request request \<Longrightarrow> airport request \<in> set valid_airports \<Longrightarrow>
   api_ask F P llm now request st =
     (Inr (get_answer_from_llm llm (question request)
             (fst (getFlights F P now (airport request) st)) (airport request)),
      snd (getFlights F P now (airport request) st))"
  by (simp add: api_ask_def ask_question_def split: prod.split)

subsection \<open>The batch normalizer\<close>

text \<open>
  C8. A record whose processing raises is dropped, and only that record: the result for
  a batch that contains it is the result for the records before it followed by the
  result for the records after it. \<open>simplify_flight_data\<close> itself has no error result:
  the handler catches every \<^verbatim>\<open>Exception\<close> that the loop body can raise.
\<close>

theorem malformed_record_dropped:
  "simplify_record F bad ft = Inl e \<Longrightarrow>
   simplify_flight_data F (xs @ bad # ys) ft =
     simplify_flight_data F xs ft @ simplify_flight_data F ys ft"
  by (simp add: simplify_flight_data_append simplify_flight_data_Cons)

theorem malformed_record_dropped_witness:
  "simplify_record reject_float (JDict [(''status'', JStr ''Landed'')]) ''arrival'' = Inl AttributeError \<and>
   simplify_flight_data reject_float
     ([JDict []] @ JDict [(''status'', JStr ''Landed'')] # [JDict []]) ''arrival'' =
     [null_record ''arrival'', null_record ''arrival'']"
  using malformed_record_dropped [OF simplify_record_status_string,
      where F = reject_float and ft = "''arrival''" and xs = "[JDict []]" and ys = "[JDict []]"]
  by (simp add: simplify_record_status_string simplify_flight_data_Cons simplify_record_no_keys)

text \<open>
  C10. The output is never longer than the input, and it is the image, in order, of a
  subsequence of the input: some \<open>kept\<close> flights, in their input order, each of which
  normalizes to the output record at the same position.
\<close>

theorem output_is_subsequence:
  "length (simplify_flight_data F flights ft) \<le> length flights \<and>
   (\<exists>kept. subseq kept flights \<and>
      map (\<lambda>flight. simplify_record F flight ft) kept =
        map Inr (simplify_flight_data F flights ft))"
proof (induction flights)
  case Nil
  show ?case by simp
next
  case (Cons f fs)
  then obtain kept where k: "subseq kept fs"
    "map (\<lambda>flight. simplify_record F flight ft) kept = map Inr (simplify_flight_data F fs ft)"
    and len: "length (simplify_flight_data F fs ft) \<le> length fs" by blast
  show ?case
  proof (cases "simplify_record F f ft")
    case (Inl e)
    have "subseq kept (f # fs)" using k(1) by (rule list_emb_Cons)
    then show ?thesis using Inl k len by (auto simp: simplify_flight_data_Cons)
  next
    case (Inr r)
    have "subseq (f # kept) (f # fs)" using k(1) by simp
    moreover have "map (\<lambda>flight. simplify_record F flight ft) (f # kept) =
        map Inr (simplify_flight_data F (f # fs) ft)"
      using Inr k(2) by (simp add: simplify_flight_data_Cons)
    ultimately show ?thesis
      using Inr len by (auto simp: simplify_flight_data_Cons simp del: subseq_Cons2_iff)
  qed
qed

text \<open>
  C1, as stated, fails: a raw record whose \<^verbatim>\<open>status\<close> is a string, where an object is
  expected, raises \<^verbatim>\<open>AttributeError\<close> inside the \<^verbatim>\<open>try\<close> block, and no record is
  produced for it.
\<close>

theorem normalizer_total_counterexample:
  "simplify_record reject_float (JDict [(''status'', JStr ''Landed'')]) ''arrival'' = Inl AttributeError \<and>
   simplify_flight_data reject_float [JDict [(''status'', JStr ''Landed'')]] ''arrival'' = []"
  by (simp add: simplify_record_status_string simplify_flight_data_Cons)

text \<open>
  C1, amended. For every raw record and direction the normalizer returns without raising,
  with one record or with none (the record is dropped). Whenever it produces a record,
  every field is the optional-chained lookup of its path, so a missing field is \<^verbatim>\<open>null\<close>
  and never a default. A well-shaped record (every sub-object on a walked path, where
  present, is an object; for \<^verbatim>\<open>airline\<close>, \<^verbatim>\<open>position\<close>, \<^verbatim>\<open>region\<close> and \<^verbatim>\<open>country\<close> a
  falsy value passes too) gives exactly that record whenever its scheduled time
  converts, and always when the scheduled time is absent, \<^verbatim>\<open>null\<close> or zero; the empty
  object and any object without the optional keys give the all-\<^verbatim>\<open>null\<close> record. A record
  that is wrong-typed (not an object, or with a non-empty value that is not an object at
  a walked path) gives no record.
\<close>

theorem normalizer_record_or_drop:
  "(simplify_flight_data F [flight] ft = [] \<or> (\<exists>r. simplify_flight_data F [flight] ft = [r])) \<and>
   (\<forall>r. simplify_record F flight ft = Inr r \<longrightarrow>
      (\<exists>t. convert_timestamp F (chain flight (scheduled_path ft)) = Inr t \<and>
           r = chained_record flight ft t)) \<and>
   (well_shaped flight ft \<longrightarrow>
      simplify_record F flight ft =
        map_sum id (chained_record flight ft)
          (convert_timestamp F (chain flight (scheduled_path ft)))) \<and>
   (well_shaped flight ft \<and> \<not> truthy (chain flight (scheduled_path ft)) \<longrightarrow>
      simplify_flight_data F [flight] ft = [chained_record flight ft JNull]) \<and>
   (wrong_typed flight ft \<longrightarrow> simplify_flight_data F [flight] ft = []) \<and>
   (\<forall>d. flight = JDict d \<and> (\<forall>k \<in> set optional_keys. map_of d k = None) \<longrightarrow>
      simplify_flight_data F [flight] ft = [null_record ft])"
proof (intro conjI allI impI)
  show "simplify_flight_data F [flight] ft = [] \<or> (\<exists>r. simplify_flight_data F [flight] ft = [r])"
    by (cases "simplify_record F flight ft") (simp_all add: simplify_flight_data_Cons)
next
  fix r
  assume "simplify_record F flight ft = Inr r"
  then show "\<exists>t. convert_timestamp F (chain flight (scheduled_path ft)) = Inr t \<and>
      r = chained_record flight ft t"
    by (rule simplify_record_chained)
next
  assume "well_shaped flight ft"
  then show "simplify_record F flight ft =
      map_sum id (chained_record flight ft)
        (convert_timestamp F (chain flight (scheduled_path ft)))"
    by (rule simplify_record_well_shaped)
next
  assume "well_shaped flight ft \<and> \<not> truthy (chain flight (scheduled_path ft))"
  then show "simplify_flight_data F [flight] ft = [chained_record flight ft JNull]"
    by (simp add: simplify_flight_data_Cons simplify_record_well_shaped convert_timestamp_def)
next
  assume "wrong_typed flight ft"
  from simplify_record_wrong_typed [OF this, of F]
  show "simplify_flight_data F [flight] ft = []"
    by (auto simp: simplify_flight_data_Cons)
next
  fix d
  assume "flight = JDict d \<and> (\<forall>k \<in> set optional_keys. map_of d k = None)"
  then show "simplify_flight_data F [flight] ft = [null_record ft]"
    by (simp add: optional_keys_def simplify_flight_data_Cons simplify_record_no_keys)
qed

theorem normalizer_record_or_drop_witness:
  "list_all (\<lambda>k. map_of [] k = (None :: json option)) optional_keys \<and>
   simplify_flight_data reject_float [JDict []] ''arrival'' = [null_record ''arrival''] \<and>
   well_shaped landed_arrival ''arrival'' \<and>
   simplify_flight_data reject_float [landed_arrival] ''arrival'' = [landed_record] \<and>
   well_shaped (numbered_flight ''EK1'') ''departure'' \<and>
   truthy (chain (numbered_flight ''EK1'') (scheduled_path ''departure'')) = False \<and>
   simplify_flight_data reject_float [numbered_flight ''EK1''] ''departure'' =
     [numbered_record ''departure'' ''EK1''] \<and>
   wrong_typed (JDict [(''status'', JStr ''Landed'')]) ''arrival'' \<and>
   simplify_flight_data reject_float [JDict [(''status'', JStr ''Landed'')]] ''arrival'' = []"
proof -
  have k: "\<forall>k \<in> set optional_keys. map_of ([] :: (string \<times> json) list) k = None" by simp
  have w1: "well_shaped landed_arrival ''arrival''"
    by (simp add: well_shaped_def landed_arrival_def plain_paths_def guarded_paths_def place_def)
  have w2: "well_shaped (numbered_flight ''EK1'') ''departure''"
    by (simp add: well_shaped_def numbered_flight_def plain_paths_def guarded_paths_def place_def)
  have w3: "wrong_typed (JDict [(''status'', JStr ''Landed'')]) ''arrival''"
    by (simp add: wrong_typed_def plain_paths_def guarded_paths_def place_def)
  have t2: "\<not> truthy (chain (numbered_flight ''EK1'') (scheduled_path ''departure''))"
    by (simp add: numbered_flight_def scheduled_path_def)
  have ch: "chain landed_arrival (scheduled_path ''arrival'') = JInt 1700000000"
    by (simp add: landed_arrival_def scheduled_path_def)
  have cv: "convert_timestamp reject_float (JInt 1700000000) =
      Inr (JStr ''2023-11-14 22:13:20 UTC'')"
    by (simp add: convert_timestamp_def utc_strftime_1700000000)
  have cr: "chained_record landed_arrival ''arrival'' (JStr ''2023-11-14 22:13:20 UTC'') =
      landed_record"
    by (simp add: chained_record_def landed_arrival_def landed_record_def)
  have c: "chained_record (numbered_flight ''EK1'') ''departure'' JNull =
      numbered_record ''departure'' ''EK1''"
    by (simp add: chained_record_def numbered_flight_def numbered_record_def null_record_def)
  from normalizer_record_or_drop [of reject_float "JDict []" "''arrival''"] k
  have e0: "simplify_flight_data reject_float [JDict []] ''arrival'' = [null_record ''arrival'']"
    by blast
  from normalizer_record_or_drop [of reject_float landed_arrival "''arrival''"] w1
  have "simplify_record reject_float landed_arrival ''arrival'' =
      map_sum id (chained_record landed_arrival ''arrival'')
        (convert_timestamp reject_float (chain landed_arrival (scheduled_path ''arrival'')))"
    by blast
  then have "simplify_record reject_float landed_arrival ''arrival'' = Inr landed_record"
    by (simp only: ch cv cr map_sum.simps)
  then have e1: "simplify_flight_data reject_float [landed_arrival] ''arrival'' = [landed_record]"
    by (simp add: simplify_flight_data_Cons)
  from normalizer_record_or_drop [of reject_float "numbered_flight ''EK1''" "''departure''"] w2 t2
  have "simplify_flight_data reject_float [numbered_flight ''EK1''] ''departure'' =
      [chained_record (numbered_flight ''EK1'') ''departure'' JNull]"
    by blast
  then have e2: "simplify_flight_data reject_float [numbered_flight ''EK1''] ''departure'' =
      [numbered_record ''departure'' ''EK1'']"
    by (simp only: c)
  from normalizer_record_or_drop
    [of reject_float "JDict [(''status'', JStr ''Landed'')]" "''arrival''"] w3
  have e3: "simplify_flight_data reject_float [JDict [(''status'', JStr ''Landed'')]] ''arrival'' = []"
    by blast
  have l: "list_all (\<lambda>k. map_of [] k = (None :: json option)) optional_keys"
    by (simp add: list_all_iff)
  show ?thesis
    using l e0 w1 e1 w2 t2 e2 w3 e3 by (intro conjI) simp_all
qed

subsection \<open>The fetcher and the aggregation\<close>

text \<open>
  C5. For every airport code and direction, when the upstream request for that
  direction fails in one of the absorbed ways (a connection failure or timeout, a
  status of 400 or above, a body that cannot be decoded, a body with an \<^verbatim>\<open>error\<close>
  entry), \<open>fetch_schedule\<close> returns the empty list, and returns it as a value: the
  result is \<open>Inr []\<close>, not an exception.
\<close>

theorem failed_fetch_is_empty:
  "absorbed_failure
     (provider airport_code (if flight_type = ''arrival'' then ''arrivals'' else ''departures''))
   \<Longrightarrow> fetch_schedule F provider airport_code flight_type = Inr []"
  by (rule fetch_schedule_absorbed)

theorem failed_fetch_is_empty_witness:
  "absorbed_failure (failing_arrivals ConnectionFailure ''DXB'' ''arrivals'') \<and>
   fetch_schedule reject_float (failing_arrivals ConnectionFailure) ''DXB'' ''arrival'' = Inr [] \<and>
   absorbed_failure (failing_arrivals (Response 503 (Some JNull)) ''DXB'' ''arrivals'') \<and>
   fetch_schedule reject_float (failing_arrivals (Response 503 (Some JNull))) ''DXB'' ''arrival'' = Inr [] \<and>
   absorbed_failure (failing_arrivals (Response 200 None) ''DXB'' ''arrivals'') \<and>
   fetch_schedule reject_float (failing_arrivals (Response 200 None)) ''DXB'' ''arrival'' = Inr [] \<and>
   absorbed_failure
     (failing_arrivals (Response 200 (Some (JDict [(''error'', JStr ''quota'')]))) ''DXB'' ''arrivals'') \<and>
   fetch_schedule reject_float
     (failing_arrivals (Response 200 (Some (JDict [(''error'', JStr ''quota'')])))) ''DXB'' ''arrival'' = Inr []"
  using
    failed_fetch_is_empty [where provider = "failing_arrivals ConnectionFailure"
      and airport_code = "''DXB''" and flight_type = "''arrival''" and F = reject_float]
    failed_fetch_is_empty [where provider = "failing_arrivals (Response 503 (Some JNull))"
      and airport_code = "''DXB''" and flight_type = "''arrival''" and F = reject_float]
    failed_fetch_is_empty [where provider = "failing_arrivals (Response 200 None)"
      and airport_code = "''DXB''" and flight_type = "''arrival''" and F = reject_float]
    failed_fetch_is_empty
      [where provider = "failing_arrivals (Response 200 (Some (JDict [(''error'', JStr ''quota'')])))"
      and airport_code = "''DXB''" and flight_type = "''arrival''" and F = reject_float]
  by (simp add: failing_arrivals_def)

text \<open>
  C6. When the arrival fetch fails, by an absorbed failure or by an exception that
  reaches \<^verbatim>\<open>gather\<close>, and the departure fetch yields the one raw record \<open>D1\<close>, which
  normalizes to \<open>n\<close>, then \<open>get_flight_data\<close> returns \<open>[n]\<close>.
\<close>

theorem partial_failure_keeps_departures:
  assumes "absorbed_failure (provider code ''arrivals'') \<or> provider code ''arrivals'' = SessionFailure"
    and "provider code ''departures'' = Response status (Some data)"
    and "status < 400"
    and "py_in ''error'' data = Inr False"
    and "raw_flights data ''departures'' = Inr [D1]"
    and "simplify_record F D1 ''departure'' = Inr n"
  shows "get_flight_data F provider code = [n]"
proof -
  have a: "(case fetch_schedule F provider code ''arrival'' of Inl e \<Rightarrow> [] | Inr r \<Rightarrow> r) = []"
    using assms(1) fetch_schedule_absorbed [of provider code "''arrival''" F]
      fetch_schedule_session_failure [of provider code "''arrival''" F]
    by auto
  have d: "fetch_schedule F provider code ''departure'' = Inr (simplify_flight_data F [D1] ''departure'')"
    using fetch_schedule_ok [of provider code "''departure''" status data "[D1]" F] assms(2-5)
    by simp
  show ?thesis
    using a d assms(6) by (simp add: get_flight_data_collect simplify_flight_data_Cons)
qed

theorem partial_failure_keeps_departures_witness:
  "absorbed_failure (failing_arrivals Timeout ''DXB'' ''arrivals'') \<and>
   failing_arrivals SessionFailure ''DXB'' ''arrivals'' = SessionFailure \<and>
   raw_flights (envelope ''departures'' [flight_item (numbered_flight ''D1'')]) ''departures'' =
     Inr [numbered_flight ''D1''] \<and>
   get_flight_data reject_float (failing_arrivals Timeout) ''DXB'' =
     [numbered_record ''departure'' ''D1''] \<and>
   get_flight_data reject_float (failing_arrivals SessionFailure) ''DXB'' =
     [numbered_record ''departure'' ''D1'']"
proof -
  have raw: "raw_flights (envelope ''departures'' [flight_item (numbered_flight ''D1'')]) ''departures'' =
      Inr [numbered_flight ''D1'']"
    using raw_flights_envelope [of "''departures''" "[numbered_flight ''D1'']"] by simp
  have dep: "failing_arrivals up ''DXB'' ''departures'' =
      Response 200 (Some (envelope ''departures'' [flight_item (numbered_flight ''D1'')]))" for up
    by (simp add: failing_arrivals_def sample_provider_def)
  have t: "absorbed_failure (failing_arrivals Timeout ''DXB'' ''arrivals'')"
    and s: "failing_arrivals SessionFailure ''DXB'' ''arrivals'' = SessionFailure"
    by (simp_all add: failing_arrivals_def)
  show ?thesis
    using partial_failure_keeps_departures [where provider = "failing_arrivals Timeout"
        and code = "''DXB''" and F = reject_float and status = 200
        and data = "envelope ''departures'' [flight_item (numbered_flight ''D1'')]"
        and ?D1.0 = "numbered_flight ''D1''" and n = "numbered_record ''departure'' ''D1''"]
      partial_failure_keeps_departures [where provider = "failing_arrivals SessionFailure"
        and code = "''DXB''" and F = reject_float and status = 200
        and data = "envelope ''departures'' [flight_item (numbered_flight ''D1'')]"
        and ?D1.0 = "numbered_flight ''D1''" and n = "numbered_record ''departure'' ''D1''"]
      raw t s dep py_in_envelope simplify_record_numbered
    by simp
qed

text \<open>
  C4. When both requests succeed, the result of \<open>get_flight_data\<close> is the normalized
  arrivals followed by the normalized departures, each in the order of the provider's
  list; for raw arrivals \<open>[A1, A2]\<close> and raw departures \<open>[D1]\<close> that normalize to
  \<open>n1\<close>, \<open>n2\<close> and \<open>n3\<close> it is \<open>[n1, n2, n3]\<close>.
\<close>

theorem merge_order:
  assumes "provider code ''arrivals'' = Response sa (Some da)" and "sa < 400"
    and "py_in ''error'' da = Inr False" and "raw_flights da ''arrivals'' = Inr arrivals"
    and "provider code ''departures'' = Response sd (Some dd)" and "sd < 400"
    and "py_in ''error'' dd = Inr False" and "raw_flights dd ''departures'' = Inr departures"
  shows "get_flight_data F provider code =
           simplify_flight_data F arrivals ''arrival'' @
           simplify_flight_data F departures ''departure'' \<and>
         (\<forall>A1 A2 D1 n1 n2 n3.
            arrivals = [A1, A2] \<and> departures = [D1] \<and>
            simplify_record F A1 ''arrival'' = Inr n1 \<and>
            simplify_record F A2 ''arrival'' = Inr n2 \<and>
            simplify_record F D1 ''departure'' = Inr n3 \<longrightarrow>
            get_flight_data F provider code = [n1, n2, n3])"
proof -
  have a: "fetch_schedule F provider code ''arrival'' = Inr (simplify_flight_data F arrivals ''arrival'')"
    using fetch_schedule_ok [of provider code "''arrival''" sa da arrivals F] assms(1-4) by simp
  have d: "fetch_schedule F provider code ''departure'' =
      Inr (simplify_flight_data F departures ''departure'')"
    using fetch_schedule_ok [of provider code "''departure''" sd dd departures F] assms(5-8) by simp
  have cat: "get_flight_data F provider code =
      simplify_flight_data F arrivals ''arrival'' @ simplify_flight_data F departures ''departure''"
    using a d by (simp add: get_flight_data_collect)
  show ?thesis
    using cat by (auto simp: simplify_flight_data_Cons)
qed

theorem merge_order_witness:
  "raw_flights (envelope ''arrivals''
       [flight_item (numbered_flight ''A1''), flight_item (numbered_flight ''A2'')]) ''arrivals'' =
     Inr [numbered_flight ''A1'', numbered_flight ''A2''] \<and>
   raw_flights (envelope ''departures'' [flight_item (numbered_flight ''D1'')]) ''departures'' =
     Inr [numbered_flight ''D1''] \<and>
   get_flight_data reject_float sample_provider ''DXB'' =
     [numbered_record ''arrival'' ''A1'', numbered_record ''arrival'' ''A2'',
      numbered_record ''departure'' ''D1'']"
proof -
  have ra: "raw_flights (envelope ''arrivals''
       [flight_item (numbered_flight ''A1''), flight_item (numbered_flight ''A2'')]) ''arrivals'' =
     Inr [numbered_flight ''A1'', numbered_flight ''A2'']"
    using raw_flights_envelope [of "''arrivals''" "[numbered_flight ''A1'', numbered_flight ''A2'']"]
    by simp
  have rd: "raw_flights (envelope ''departures'' [flight_item (numbered_flight ''D1'')]) ''departures'' =
      Inr [numbered_flight ''D1'']"
    using raw_flights_envelope [of "''departures''" "[numbered_flight ''D1'']"] by simp
  have pa: "sample_provider ''DXB'' ''arrivals'' = Response 200 (Some (envelope ''arrivals''
       [flight_item (numbered_flight ''A1''), flight_item (numbered_flight ''A2'')]))"
    and pd: "sample_provider ''DXB'' ''departures'' =
       Response 200 (Some (envelope ''departures'' [flight_item (numbered_flight ''D1'')]))"
    by (simp_all add: sample_provider_def)
  show ?thesis
    using merge_order [where provider = sample_provider and code = "''DXB''" and F = reject_float
        and sa = 200 and sd = 200
        and da = "envelope ''arrivals''
          [flight_item (numbered_flight ''A1''), flight_item (numbered_flight ''A2'')]"
        and dd = "envelope ''departures'' [flight_item (numbered_flight ''D1'')]"
        and arrivals = "[numbered_flight ''A1'', numbered_flight ''A2'']"
        and departures = "[numbered_flight ''D1'']"]
      ra rd pa pd py_in_envelope simplify_record_numbered
    by (simp add: simplify_flight_data_Cons)
qed

subsection \<open>Timestamps\<close>

text \<open>
  C7. \<open>convert_timestamp\<close> maps \<^verbatim>\<open>None\<close>, the integer 0 and the value looked up under an
  absent key to \<^verbatim>\<open>None\<close>, and \<^verbatim>\<open>None\<close> is the result for falsy inputs only. It maps
  1700000000 to the string \<^verbatim>\<open>2023-11-14 22:13:20 UTC\<close>, and every nonzero integer within
  the range of \<^verbatim>\<open>datetime\<close> (years 1 to 9999) to a string that, read as a date and a time
  of day in UTC, names exactly that number of seconds since 1970-01-01 00:00:00 UTC. The
  year is not padded: the last second of year 999 gives \<^verbatim>\<open>999-12-31 23:59:59 UTC\<close> and the
  first second of year 1 gives \<^verbatim>\<open>1-01-01 00:00:00 UTC\<close>. As a function of its input, the
  result is the same whenever the input is.
\<close>

theorem convert_timestamp_absent_or_utc:
  "convert_timestamp F JNull = Inr JNull \<and>
   convert_timestamp F (JInt 0) = Inr JNull \<and>
   (\<forall>d key. map_of d key = None \<longrightarrow>
      and_then (py_get (JDict d) key JNull) (convert_timestamp F) = Inr JNull) \<and>
   (\<forall>ts. (convert_timestamp F ts = Inr JNull) = (\<not> truthy ts)) \<and>
   convert_timestamp F (JInt 1700000000) = Inr (JStr ''2023-11-14 22:13:20 UTC'') \<and>
   (\<forall>n. n \<noteq> 0 \<and> -62135596800 \<le> n \<and> n \<le> 253402300799 \<longrightarrow>
      (\<exists>s. convert_timestamp F (JInt n) = Inr (JStr s) \<and> parse_utc s = Some n)) \<and>
   convert_timestamp F (JInt (-30610224001)) = Inr (JStr ''999-12-31 23:59:59 UTC'') \<and>
   convert_timestamp F (JInt (-62135596800)) = Inr (JStr ''1-01-01 00:00:00 UTC'')"
proof -
  have "\<exists>s. convert_timestamp F (JInt n) = Inr (JStr s) \<and> parse_utc s = Some n"
    if "n \<noteq> 0" "-62135596800 \<le> n" "n \<le> 253402300799" for n
    using utc_strftime_round_trip [OF that(2,3)] that(1) by (auto simp: convert_timestamp_def)
  moreover have "utc_strftime (-30610224001) = Inr ''999-12-31 23:59:59 UTC''" by code_simp
  moreover have "utc_strftime (-62135596800) = Inr ''1-01-01 00:00:00 UTC''" by code_simp
  ultimately show ?thesis
    by (simp add: convert_timestamp_null_iff utc_strftime_1700000000)
       (simp add: convert_timestamp_def utc_strftime_1700000000)
qed

theorem convert_timestamp_absent_or_utc_witness:
  "map_of [(''departure'', JInt 5)] ''arrival'' = None \<and>
   and_then (py_get (JDict [(''departure'', JInt 5)]) ''arrival'' JNull)
     (convert_timestamp reject_float) = Inr JNull \<and>
   (1700000000 :: int) \<noteq> 0 \<and> -62135596800 \<le> (1700000000 :: int) \<and>
   (1700000000 :: int) \<le> 253402300799 \<and>
   convert_timestamp reject_float (JInt 1700000000) = Inr (JStr ''2023-11-14 22:13:20 UTC'') \<and>
   parse_utc ''2023-11-14 22:13:20 UTC'' = Some 1700000000"
proof -
  note t = convert_timestamp_absent_or_utc [of reject_float]
  from t have absent: "\<forall>d key. map_of d key = None \<longrightarrow>
      and_then (py_get (JDict d) key JNull) (convert_timestamp reject_float) = Inr JNull"
    by (elim conjE)
  from t have v: "convert_timestamp reject_float (JInt 1700000000) =
      Inr (JStr ''2023-11-14 22:13:20 UTC'')"
    by (elim conjE)
  from t have r: "\<forall>n. n \<noteq> 0 \<and> -62135596800 \<le> n \<and> n \<le> 253402300799 \<longrightarrow>
      (\<exists>s. convert_timestamp reject_float (JInt n) = Inr (JStr s) \<and> parse_utc s = Some n)"
    by (elim conjE)
  have "\<exists>s. convert_timestamp reject_float (JInt 1700000000) = Inr (JStr s) \<and>
      parse_utc s = Some 1700000000"
    using r [rule_format, of 1700000000] by simp
  then have p: "parse_utc ''2023-11-14 22:13:20 UTC'' = Some 1700000000"
    unfolding v by simp
  have a: "and_then (py_get (JDict [(''departure'', JInt 5)]) ''arrival'' JNull)
     (convert_timestamp reject_float) = Inr JNull"
    using absent [rule_format, of "[(''departure'', JInt 5)]" "''arrival''"] by simp
  show ?thesis using a v p by simp
qed

subsection \<open>The cache\<close>

text \<open>
  C2. Two calls for the same airport code at times \<open>t1 \<le> t2\<close> less than the TTL apart run
  the wrapped function at most once between them, and when the first call ran it, the
  second returns the stored value and runs nothing. A call that runs nothing returns an
  entry that is younger than the TTL at the time of the call; every other call returns
  what the wrapped function computes at that time. When every entry for the code is as
  old as the TTL or older, or there is none, the call runs the wrapped function. After
  the first call the cache holds one entry for the code, with creation time \<open>c\<close>: one
  that the cache held before if the call was served from it, one created at \<open>t1\<close>
  otherwise. The second call is served that entry, creation time unchanged, when
  \<open>t2 < c + ttl\<close>, and runs the wrapped function and stores a new entry created at
  \<open>t2\<close> when \<open>c + ttl \<le> t2\<close>.
\<close>

theorem served_from_cache_within_ttl:
  assumes "getFlights F P t1 a st = (r1, s1)" and "getFlights F P t2 a s1 = (r2, s2)"
  shows "(t1 \<le> t2 \<and> t2 < t1 + ttl \<longrightarrow>
            rounds s2 \<le> rounds st + 1 \<and>
            (rounds s1 = rounds st + 1 \<longrightarrow> r2 = r1 \<and> rounds s2 = rounds s1)) \<and>
         (rounds s2 = rounds s1 \<longrightarrow>
            (\<exists>c. (uppercase a, r2, c) \<in> set (entries s1) \<and> t2 < c + ttl)) \<and>
         (rounds s2 \<noteq> rounds s1 \<longrightarrow> r2 = get_flight_data F (P t2) a) \<and>
         ((\<forall>fl c. (uppercase a, fl, c) \<in> set (entries st) \<longrightarrow> c + ttl \<le> t1) \<longrightarrow>
            rounds s1 = rounds st + 1 \<and> r1 = get_flight_data F (P t1) a) \<and>
         (\<exists>xs c. entries s1 = xs @ [(uppercase a, r1, c)] \<and> uppercase a \<notin> fst ` set xs \<and>
            t1 < c + ttl \<and>
            (rounds s1 = rounds st \<longrightarrow> (uppercase a, r1, c) \<in> set (entries st)) \<and>
            (rounds s1 \<noteq> rounds st \<longrightarrow>
               rounds s1 = rounds st + 1 \<and> c = t1 \<and> r1 = get_flight_data F (P t1) a) \<and>
            (t2 < c + ttl \<longrightarrow>
               r2 = r1 \<and> rounds s2 = rounds s1 \<and>
               (\<exists>ys. entries s2 = ys @ [(uppercase a, r1, c)] \<and> uppercase a \<notin> fst ` set ys)) \<and>
            (c + ttl \<le> t2 \<longrightarrow>
               rounds s2 = rounds s1 + 1 \<and> r2 = get_flight_data F (P t2) a \<and>
               (\<exists>ys. entries s2 = ys @ [(uppercase a, r2, t2)] \<and> uppercase a \<notin> fst ` set ys)))"
proof -
  let ?k = "uppercase a"
  from after_call [OF assms(1)] obtain xs c where
    s1: "entries s1 = xs @ [(?k, r1, c)]" "?k \<notin> fst ` set xs" "t1 < c + ttl"
    and k: "rounds s1 = rounds st + 1 \<and> c = t1 \<and> r1 = get_flight_data F (P t1) a \<or>
            rounds s1 = rounds st \<and> (?k, r1, c) \<in> set (entries st)" by auto
  from after_call [OF assms(2)] obtain ys c' where
    s2: "entries s2 = ys @ [(?k, r2, c')]" "?k \<notin> fst ` set ys" "t2 < c' + ttl"
    and k2: "rounds s2 = rounds s1 + 1 \<and> c' = t2 \<and> r2 = get_flight_data F (P t2) a \<or>
            rounds s2 = rounds s1 \<and> (?k, r2, c') \<in> set (entries s1)" by auto
  have hit: "r2 = r1 \<and> rounds s2 = rounds s1 \<and>
      (\<exists>ys. entries s2 = ys @ [(?k, r1, c)] \<and> ?k \<notin> fst ` set ys)" if "t2 < c + ttl"
  proof -
    from served_when_last [OF s1(1,2) that, of F P] assms(2)
    have e: "r2 = r1" "s2 = s1\<lparr>entries := filter (\<lambda>e. fst e \<noteq> ?k) (filter (fresh t2) (entries s1)) @
        [(?k, r1, c)]\<rparr>" by auto
    have "?k \<notin> fst ` set (filter (\<lambda>e. fst e \<noteq> ?k) (filter (fresh t2) (entries s1)))" by auto
    then show ?thesis using e by auto
  qed
  have expired: "rounds s2 = rounds s1 + 1 \<and> r2 = get_flight_data F (P t2) a \<and>
      (\<exists>ys. entries s2 = ys @ [(?k, r2, t2)] \<and> ?k \<notin> fst ` set ys)" if "c + ttl \<le> t2"
  proof -
    have "\<forall>fl c'. (?k, fl, c') \<in> set (entries s1) \<longrightarrow> c' + ttl \<le> t2"
      using s1(1,2) that by (auto simp: image_iff)
    from refetch_when_expired [OF this, of F P] assms(2)
    have "r2 = get_flight_data F (P t2) a" "rounds s2 = rounds s1 + 1" by simp_all
    then show ?thesis using s2 k2 by auto
  qed
  have first_expired: "rounds s1 = rounds st + 1 \<and> r1 = get_flight_data F (P t1) a"
    if "\<forall>fl c. (?k, fl, c) \<in> set (entries st) \<longrightarrow> c + ttl \<le> t1"
    using refetch_when_expired [OF that, of F P] assms(1) by simp
  have two: "rounds s2 \<le> rounds st + 1 \<and>
      (rounds s1 = rounds st + 1 \<longrightarrow> r2 = r1 \<and> rounds s2 = rounds s1)"
    if "t1 \<le> t2 \<and> t2 < t1 + ttl"
    using that k k2 hit by auto
  have served: "rounds s2 = rounds s1 \<longrightarrow> (\<exists>c. (?k, r2, c) \<in> set (entries s1) \<and> t2 < c + ttl)"
    using k2 s2(3) by auto
  have fetched: "rounds s2 \<noteq> rounds s1 \<longrightarrow> r2 = get_flight_data F (P t2) a"
    using k2 by auto
  have last: "\<exists>xs c. entries s1 = xs @ [(?k, r1, c)] \<and> ?k \<notin> fst ` set xs \<and>
            t1 < c + ttl \<and>
            (rounds s1 = rounds st \<longrightarrow> (?k, r1, c) \<in> set (entries st)) \<and>
            (rounds s1 \<noteq> rounds st \<longrightarrow>
               rounds s1 = rounds st + 1 \<and> c = t1 \<and> r1 = get_flight_data F (P t1) a) \<and>
            (t2 < c + ttl \<longrightarrow>
               r2 = r1 \<and> rounds s2 = rounds s1 \<and>
               (\<exists>ys. entries s2 = ys @ [(?k, r1, c)] \<and> ?k \<notin> fst ` set ys)) \<and>
            (c + ttl \<le> t2 \<longrightarrow>
               rounds s2 = rounds s1 + 1 \<and> r2 = get_flight_data F (P t2) a \<and>
               (\<exists>ys. entries s2 = ys @ [(?k, r2, t2)] \<and> ?k \<notin> fst ` set ys))"
    using s1 k hit expired by (intro exI [of _ xs] exI [of _ c]) auto
  show ?thesis using two served fetched first_expired last by blast
qed

theorem served_from_cache_within_ttl_witness:
  "(0::nat) \<le> 599 \<and> (599::nat) < 0 + ttl \<and> (0::nat) + ttl \<le> 601 \<and>
   entries empty_cache = [] \<and>
   rounds (snd (getFlights reject_float (steady sample_provider) 0 ''DXB'' empty_cache)) =
     rounds empty_cache + 1 \<and>
   fst (getFlights reject_float (steady sample_provider) 599 ''DXB''
          (snd (getFlights reject_float (steady sample_provider) 0 ''DXB'' empty_cache))) =
     fst (getFlights reject_float (steady sample_provider) 0 ''DXB'' empty_cache) \<and>
   rounds (snd (getFlights reject_float (steady sample_provider) 599 ''DXB''
          (snd (getFlights reject_float (steady sample_provider) 0 ''DXB'' empty_cache)))) = 1 \<and>
   rounds (snd (getFlights reject_float (steady sample_provider) 601 ''DXB''
          (snd (getFlights reject_float (steady sample_provider) 0 ''DXB'' empty_cache)))) = 2"
proof -
  define s1 where "s1 = snd (getFlights reject_float (steady sample_provider) 0 ''DXB'' empty_cache)"
  define r1 where "r1 = fst (getFlights reject_float (steady sample_provider) 0 ''DXB'' empty_cache)"
  have c1: "getFlights reject_float (steady sample_provider) 0 ''DXB'' empty_cache = (r1, s1)"
    by (simp add: s1_def r1_def)
  have r: "rounds s1 = rounds empty_cache + 1"
    using first_call_rounds [of reject_float "steady sample_provider" 0 "''DXB''"]
    by (simp add: s1_def empty_cache_def)
  have c2: "getFlights reject_float (steady sample_provider) t ''DXB'' s1 =
      (fst (getFlights reject_float (steady sample_provider) t ''DXB'' s1),
       snd (getFlights reject_float (steady sample_provider) t ''DXB'' s1))" for t
    by simp
  have a: "fst (getFlights reject_float (steady sample_provider) 599 ''DXB'' s1) = r1 \<and>
      rounds (snd (getFlights reject_float (steady sample_provider) 599 ''DXB'' s1)) = rounds s1"
    using served_from_cache_within_ttl [OF c1 c2 [of 599]] r by (simp add: ttl_def)
  have b: "rounds (snd (getFlights reject_float (steady sample_provider) 601 ''DXB'' s1)) =
      rounds s1 + 1"
    using served_from_cache_within_ttl [OF c1 c2 [of 601]] r by (auto simp: ttl_def)
  show ?thesis
    using a b r by (simp add: s1_def r1_def ttl_def empty_cache_def)
qed

subsection \<open>The cache key\<close>

text \<open>
  C9. For every request that passes the boundary (a question of at least five
  characters and a whitelisted airport code), the flights are looked up and stored under
  the uppercase form of the code, which for these codes is the code itself: a fresh
  entry under that key is served, and after the call the cache holds exactly one entry
  under that key, the one whose flights were answered from. Any later accepted request
  whose code has the same uppercase form, made while that entry is younger than the TTL,
  is answered from the same entry without a run of the wrapped function.
\<close>

theorem accepted_code_key_is_uppercase:
  assumes "valid_request request" and "airport request \<in> set valid_airports"
    and "api_ask F P llm now request st = (res, st')"
  shows "uppercase (airport request) = airport request \<and>
         (\<forall>fl c. map_of (filter (fresh now) (entries st)) (uppercase (airport request)) =
                   Some (fl, c) \<longrightarrow>
            rounds st' = rounds st \<and>
            res = Inr (get_answer_from_llm llm (question request) fl (airport request))) \<and>
         (\<exists>xs fl c.
            entries st' = xs @ [(uppercase (airport request), fl, c)] \<and>
            uppercase (airport request) \<notin> fst ` set xs \<and>
            res = Inr (get_answer_from_llm llm (question request) fl (airport request)) \<and>
            now < c + ttl \<and> (rounds st' \<noteq> rounds st \<longrightarrow> c = now) \<and>
            (\<forall>other t2 res2 st2.
               valid_request other \<and> airport other \<in> set valid_airports \<and>
               uppercase (airport other) = uppercase (airport request) \<and>
               t2 < c + ttl \<and> api_ask F P llm t2 other st' = (res2, st2) \<longrightarrow>
               rounds st2 = rounds st' \<and>
               res2 = Inr (get_answer_from_llm llm (question other) fl (airport other)) \<and>
               (\<exists>ys. entries st2 = ys @ [(uppercase (airport request), fl, c)] \<and>
                  uppercase (airport request) \<notin> fst ` set ys)))"
proof -
  let ?a = "airport request"
  let ?k = "uppercase ?a"
  have up: "?k = ?a" using assms(2) by (rule valid_airports_uppercase)
  have res: "res = Inr (get_answer_from_llm llm (question request)
             (fst (getFlights F P now ?a st)) ?a)"
    and st': "st' = snd (getFlights F P now ?a st)"
    using assms(3) api_ask_accepted [OF assms(1,2), of F P llm now st] by simp_all
  have g: "getFlights F P now ?a st = (fst (getFlights F P now ?a st), st')"
    using st' by simp
  from after_call [OF g] obtain xs c where
    e: "entries st' = xs @ [(?k, fst (getFlights F P now ?a st), c)]" "?k \<notin> fst ` set xs"
      "now < c + ttl" "rounds st' \<noteq> rounds st \<longrightarrow> c = now"
    by auto
  have looked: "rounds st' = rounds st \<and>
        res = Inr (get_answer_from_llm llm (question request) fl ?a)"
    if "map_of (filter (fresh now) (entries st)) ?k = Some (fl, c)" for fl c
    using getFlights_hit [OF that, of F P] res st' by simp
  have shared: "rounds st2 = rounds st' \<and>
        res2 = Inr (get_answer_from_llm llm (question other)
                 (fst (getFlights F P now ?a st)) (airport other)) \<and>
        (\<exists>ys. entries st2 = ys @ [(?k, fst (getFlights F P now ?a st), c)] \<and> ?k \<notin> fst ` set ys)"
    if o: "valid_request other \<and> airport other \<in> set valid_airports \<and>
        uppercase (airport other) = ?k \<and> t2 < c + ttl \<and>
        api_ask F P llm t2 other st' = (res2, st2)" for other t2 res2 st2
  proof -
    have k: "uppercase (airport other) = ?k" using o by simp
    have e': "entries st' = xs @ [(uppercase (airport other), fst (getFlights F P now ?a st), c)]"
      "uppercase (airport other) \<notin> fst ` set xs"
      using e(1,2) k by simp_all
    have t: "t2 < c + ttl" using o by simp
    note h = served_when_last [OF e' t, of F P]
    have "res2 = Inr (get_answer_from_llm llm (question other)
             (fst (getFlights F P t2 (airport other) st')) (airport other))"
      and "st2 = snd (getFlights F P t2 (airport other) st')"
      using o api_ask_accepted [of other F P llm t2 st'] by simp_all
    then have r2: "res2 = Inr (get_answer_from_llm llm (question other)
             (fst (getFlights F P now ?a st)) (airport other))"
      and s2: "st2 = st'\<lparr>entries := filter (\<lambda>e. fst e \<noteq> ?k) (filter (fresh t2) (entries st')) @
        [(?k, fst (getFlights F P now ?a st), c)]\<rparr>"
      using h k by simp_all
    have "?k \<notin> fst ` set (filter (\<lambda>e. fst e \<noteq> ?k) (filter (fresh t2) (entries st')))" by auto
    then show ?thesis using r2 s2 by auto
  qed
  have stored: "\<exists>xs fl c.
            entries st' = xs @ [(?k, fl, c)] \<and> ?k \<notin> fst ` set xs \<and>
            res = Inr (get_answer_from_llm llm (question request) fl ?a) \<and>
            now < c + ttl \<and> (rounds st' \<noteq> rounds st \<longrightarrow> c = now) \<and>
            (\<forall>other t2 res2 st2.
               valid_request other \<and> airport other \<in> set valid_airports \<and>
               uppercase (airport other) = ?k \<and>
               t2 < c + ttl \<and> api_ask F P llm t2 other st' = (res2, st2) \<longrightarrow>
               rounds st2 = rounds st' \<and>
               res2 = Inr (get_answer_from_llm llm (question other) fl (airport other)) \<and>
               (\<exists>ys. entries st2 = ys @ [(?k, fl, c)] \<and> ?k \<notin> fst ` set ys))"
    using e res shared
    by (intro exI [of _ xs] exI [of _ "fst (getFlights F P now ?a st)"] exI [of _ c]) blast
  show ?thesis using up looked stored by blast
qed

theorem accepted_code_key_is_uppercase_witness:
  "valid_request \<lparr>airport = ''DXB'', question = ''Which flights arrive?''\<rparr> \<and>
   airport \<lparr>airport = ''DXB'', question = ''Which flights arrive?''\<rparr> \<in> set valid_airports \<and>
   uppercase ''DXB'' = ''DXB'' \<and>
   (\<exists>xs fl c.
      entries (snd (api_ask reject_float (steady sample_provider) unavailable_llm 0
         \<lparr>airport = ''DXB'', question = ''Which flights arrive?''\<rparr> empty_cache)) =
      xs @ [(''DXB'', fl, c)] \<and> ''DXB'' \<notin> fst ` set xs) \<and>
   rounds (snd (api_ask reject_float (steady sample_provider) unavailable_llm 10
      \<lparr>airport = ''DXB'', question = ''Which flights leave?''\<rparr>
      (snd (api_ask reject_float (steady sample_provider) unavailable_llm 0
         \<lparr>airport = ''DXB'', question = ''Which flights arrive?''\<rparr> empty_cache)))) = 1"
proof -
  define q where "q = \<lparr>airport = ''DXB'', question = ''Which flights arrive?''\<rparr>"
  define q' where "q' = \<lparr>airport = ''DXB'', question = ''Which flights leave?''\<rparr>"
  define s1 where "s1 = snd (api_ask reject_float (steady sample_provider) unavailable_llm 0 q
    empty_cache)"
  have v: "valid_request q" "valid_request q'" by (simp_all add: q_def q'_def valid_request_def)
  have a: "airport q \<in> set valid_airports" "airport q' \<in> set valid_airports"
    by (simp_all add: q_def q'_def valid_airports_def)
  have c: "api_ask reject_float (steady sample_provider) unavailable_llm 0 q empty_cache =
      (fst (api_ask reject_float (steady sample_provider) unavailable_llm 0 q empty_cache), s1)"
    by (simp add: s1_def)
  have r1: "rounds s1 = 1"
    using first_call_rounds [of reject_float "steady sample_provider" 0 "''DXB''"]
      api_ask_accepted [OF v(1) a(1), of reject_float "steady sample_provider" unavailable_llm 0
        empty_cache]
    by (simp add: s1_def q_def)
  from accepted_code_key_is_uppercase [OF v(1) a(1) c]
  obtain xs fl c where up: "uppercase (airport q) = airport q"
    and e: "entries s1 = xs @ [(uppercase (airport q), fl, c)]"
      "uppercase (airport q) \<notin> fst ` set xs"
    and st: "rounds s1 \<noteq> rounds empty_cache \<longrightarrow> c = 0"
    and sh: "\<forall>other t2 res2 st2.
               valid_request other \<and> airport other \<in> set valid_airports \<and>
               uppercase (airport other) = uppercase (airport q) \<and>
               t2 < c + ttl \<and>
               api_ask reject_float (steady sample_provider) unavailable_llm t2 other s1 =
                 (res2, st2) \<longrightarrow>
               rounds st2 = rounds s1"
    by blast
  have c0: "c = 0" using st r1 by (simp add: empty_cache_def)
  have "rounds (snd (api_ask reject_float (steady sample_provider) unavailable_llm 10 q' s1)) =
      rounds s1"
    using sh [rule_format, of q' 10
        "fst (api_ask reject_float (steady sample_provider) unavailable_llm 10 q' s1)"
        "snd (api_ask reject_float (steady sample_provider) unavailable_llm 10 q' s1)"]
      v a c0 by (simp add: q_def q'_def ttl_def)
  then show ?thesis using v a up e r1 by (auto simp: q_def q'_def s1_def)
qed

end
